theory Spec2Isabelle
  imports Complex_Main "HOL-Library.Multiset" "HOL-Library.AList" "HOL-Library.Char_ord"
    "HOL-Library.List_Lexorder"
begin

section \<open>Strings\<close>

text \<open>
  A Python \<open>str\<close> is modelled as a \<open>string\<close>: a list of characters of the type \<open>char\<close>, whose
  values are the 256 code points U+0000 to U+00FF.  The methods of \<open>str\<close> that
  \<open>bikeshare.py\<close> calls are \<open>lower\<close>, \<open>strip\<close>, \<open>split(',')\<close> and \<open>title\<close>; they are modelled on
  all of these code points, as Python defines them there.  \<open>lower\<close>, \<open>strip\<close> and \<open>split\<close>
  map texts over these code points to such texts again; \<open>title\<close> does not always.
\<close>

text \<open>The upper-case letters below U+0100 and, at the same positions, their lower-case
  letters: A to Z, and U+00C0 to U+00DE without the multiplication sign U+00D7.\<close>

definition upper_letters :: string where
  "upper_letters =
     ''ABCDEFGHIJKLMNOPQRSTUVWXYZ'' @
     [CHR 0xC0, CHR 0xC1, CHR 0xC2, CHR 0xC3, CHR 0xC4, CHR 0xC5, CHR 0xC6, CHR 0xC7,
      CHR 0xC8, CHR 0xC9, CHR 0xCA, CHR 0xCB, CHR 0xCC, CHR 0xCD, CHR 0xCE, CHR 0xCF,
      CHR 0xD0, CHR 0xD1, CHR 0xD2, CHR 0xD3, CHR 0xD4, CHR 0xD5, CHR 0xD6, CHR 0xD8,
      CHR 0xD9, CHR 0xDA, CHR 0xDB, CHR 0xDC, CHR 0xDD, CHR 0xDE]"

definition lower_letters :: string where
  "lower_letters =
     ''abcdefghijklmnopqrstuvwxyz'' @
     [CHR 0xE0, CHR 0xE1, CHR 0xE2, CHR 0xE3, CHR 0xE4, CHR 0xE5, CHR 0xE6, CHR 0xE7,
      CHR 0xE8, CHR 0xE9, CHR 0xEA, CHR 0xEB, CHR 0xEC, CHR 0xED, CHR 0xEE, CHR 0xEF,
      CHR 0xF0, CHR 0xF1, CHR 0xF2, CHR 0xF3, CHR 0xF4, CHR 0xF5, CHR 0xF6, CHR 0xF8,
      CHR 0xF9, CHR 0xFA, CHR 0xFB, CHR 0xFC, CHR 0xFD, CHR 0xFE]"

definition lower_char :: "char \<Rightarrow> char" where
  "lower_char c = (case map_of (zip upper_letters lower_letters) c of Some d \<Rightarrow> d | None \<Rightarrow> c)"

definition upper_char :: "char \<Rightarrow> char" where
  "upper_char c = (case map_of (zip lower_letters upper_letters) c of Some d \<Rightarrow> d | None \<Rightarrow> c)"

text \<open>The title case of one character.  It is the upper-case letter, with three
  exceptions: the sharp s U+00DF becomes \<open>Ss\<close>, and the title case of the micro sign
  U+00B5 and of U+00FF (y with diaeresis) lies above U+00FF, so it is no text of the
  model (\<open>None\<close>).\<close>

definition title_char :: "char \<Rightarrow> string option" where
  "title_char c =
     (if c = CHR 0xDF then Some ''Ss''
      else if c = CHR 0xB5 \<or> c = CHR 0xFF then None
      else Some [upper_char c])"

text \<open>The cased characters: the letters above, the sharp s, U+00FF, the micro sign and the
  two ordinal indicators U+00AA and U+00BA.\<close>

definition is_cased :: "char \<Rightarrow> bool" where
  "is_cased c \<longleftrightarrow>
     c \<in> set (upper_letters @ lower_letters @ [CHR 0xAA, CHR 0xB5, CHR 0xBA, CHR 0xDF, CHR 0xFF])"

text \<open>The characters that \<open>str.strip()\<close> removes: tab, line feed, vertical tab, form feed,
  carriage return, the four separators U+001C to U+001F, the space, the next-line
  control U+0085 and the no-break space U+00A0.\<close>

definition is_space :: "char \<Rightarrow> bool" where
  "is_space c \<longleftrightarrow>
     c \<in> set [CHR 0x09, CHR 0x0A, CHR 0x0B, CHR 0x0C, CHR 0x0D,
               CHR 0x1C, CHR 0x1D, CHR 0x1E, CHR 0x1F, CHR '' '', CHR 0x85, CHR 0xA0]"

definition lower :: "string \<Rightarrow> string" where
  "lower s = map lower_char s"

definition strip :: "string \<Rightarrow> string" where
  "strip s = rev (dropWhile is_space (rev (dropWhile is_space s)))"

text \<open>\<open>s.split(sep)\<close> for a one-character separator: never empty, one more piece than
  there are separators.\<close>

fun split :: "char \<Rightarrow> string \<Rightarrow> string list" where
  "split sep [] = [[]]"
| "split sep (c # cs) =
     (if c = sep then [] # split sep cs
      else (case split sep cs of
              [] \<Rightarrow> [[c]]
            | w # ws \<Rightarrow> (c # w) # ws))"

text \<open>\<open>str.title()\<close>: a character is put into title case when the character before it is
  not cased, and into lower case otherwise.  The result is \<open>None\<close> when it is no text of
  the model.\<close>

fun title_from :: "bool \<Rightarrow> string \<Rightarrow> string option" where
  "title_from previous_is_cased [] = Some []"
| "title_from previous_is_cased (c # cs) =
     (case (if previous_is_cased then Some [lower_char c] else title_char c) of
        None \<Rightarrow> None
      | Some t \<Rightarrow>
          (case title_from (is_cased c) cs of
             None \<Rightarrow> None
           | Some ts \<Rightarrow> Some (t @ ts)))"

definition title :: "string \<Rightarrow> string option" where
  "title s = title_from False s"

section \<open>Exceptions and values\<close>

text \<open>Every \<open>raise\<close> of the program, and every exception Python or pandas raises for it,
  is a value of \<open>py_error\<close>; a function that can raise returns \<open>py_error + 'a\<close>.\<close>

datatype py_error =
    SystemExit
  | EOFError
  | KeyError string
  | ValueError
  | IndexError
  | TypeError
  | AttributeError
  | FileNotFoundError string
  | PermissionError string
  | IsADirectoryError string
  | EmptyDataError
  | ParserError
  | UnicodeDecodeError
  | OtherError string

text \<open>What \<open>get_user_choice\<close> returns: a \<open>str\<close> or a \<open>list\<close> of \<open>str\<close>.  The callers
  tell the two apart with \<open>isinstance(x, list)\<close> and compare with \<open>==\<close>; a list never
  equals a string.\<close>

datatype choice = Str string | StrList "string list"

section \<open>The module constants\<close>

definition CITY_DATA :: "(string \<times> string) list" where
  "CITY_DATA =
     [(''chicago'', ''chicago.csv''),
      (''new york city'', ''new_york_city.csv''),
      (''washington'', ''washington.csv'')]"

definition months :: "string list" where
  "months = [''january'', ''february'', ''march'', ''april'', ''may'', ''june'']"

definition weekdays :: "string list" where
  "weekdays =
     [''sunday'', ''monday'', ''tuesday'', ''wednesday'', ''thursday'', ''friday'', ''saturday'']"

section \<open>Prompting: \<open>get_user_choice\<close>\<close>

text \<open>
  Standard input is the list of the lines still to be read; \<open>input(prompt)\<close> takes the
  first one and raises \<open>EOFError\<close> when there is none.  \<open>get_user_choice\<close> returns the
  choice together with the lines it has not read.  One round of the \<open>while True\<close> loop
  reads one line, so the loop is a recursion on the list of lines.
\<close>

fun get_user_choice :: "string list \<Rightarrow> string list \<Rightarrow> py_error + (choice \<times> string list)" where
  "get_user_choice valid_choices [] = Inl EOFError"
| "get_user_choice valid_choices (line # rest) =
     (let user_input = strip (lower line) in
      if user_input = ''end'' then Inl SystemExit
      else if CHR '','' \<notin> set user_input then
        (if user_input \<in> set valid_choices then Inr (Str user_input, rest)
         else get_user_choice valid_choices rest)
      else
        (let choices = map (\<lambda>i. lower (strip i)) (split (CHR '','') user_input) in
         if \<forall>choice \<in> set choices. choice \<in> set valid_choices then Inr (StrList choices, rest)
         else get_user_choice valid_choices rest))"

section \<open>Tables\<close>

text \<open>
  A pandas \<open>DataFrame\<close> is modelled by its column labels and its rows; a row maps labels to
  cells, and a label it does not hold reads as \<open>NaN\<close> (what \<open>pd.concat\<close> fills in for a
  frame that lacks a column).  Row labels (the index) are not modelled: the program
  never reads them.  A \<open>Series\<close> is a list of cells.

  Numbers are \<open>IntC\<close> (an integer column) or \<open>FloatC\<close> (a float column, its values as
  rationals); text is \<open>StrC\<close>; a parsed \<open>Start Time\<close> is \<open>TimeC\<close>.  Of a timestamp the
  program reads the month, the day of the week and the hour, so these are its fields.
\<close>

datatype day = Monday | Tuesday | Wednesday | Thursday | Friday | Saturday | Sunday

datatype datetime = NaT | Timestamp (ts_month: int) (ts_day: day) (ts_hour: int)

datatype cell = IntC int | FloatC rat | StrC string | TimeC datetime | NaN

type_synonym row = "(string \<times> cell) list"

type_synonym series = "cell list"

record dataframe =
  columns :: "string list"
  rows :: "row list"

definition cell_of :: "row \<Rightarrow> string \<Rightarrow> cell" where
  "cell_of r c = (case map_of r c of Some v \<Rightarrow> v | None \<Rightarrow> NaN)"

text \<open>\<open>df[c]\<close> raises \<open>KeyError\<close> for a label that is not a column.\<close>

definition getitem :: "dataframe \<Rightarrow> string \<Rightarrow> py_error + series" where
  "getitem df c =
     (if c \<in> set (columns df) then Inr (map (\<lambda>r. cell_of r c) (rows df))
      else Inl (KeyError c))"

text \<open>\<open>df[c] = values\<close>: the column is replaced, or added after the others.\<close>

definition setitem :: "dataframe \<Rightarrow> string \<Rightarrow> series \<Rightarrow> dataframe" where
  "setitem df c vals =
     \<lparr>columns = (if c \<in> set (columns df) then columns df else columns df @ [c]),
      rows = map (\<lambda>(r, v). AList.update c v r) (zip (rows df) vals)\<rparr>"

text \<open>\<open>df[mask]\<close>: the rows at which the boolean series is true, in order.\<close>

definition boolean_index :: "dataframe \<Rightarrow> bool list \<Rightarrow> dataframe" where
  "boolean_index df bools = df\<lparr>rows := map fst (filter snd (zip (rows df) bools))\<rparr>"

text \<open>\<open>series == k\<close> for a Python \<open>int\<close>, and \<open>series == s\<close> for a Python \<open>str\<close>,
  cell by cell.  \<open>NaN\<close> equals nothing.\<close>

fun eq_int :: "cell \<Rightarrow> int \<Rightarrow> bool" where
  "eq_int (IntC a) k = (a = k)"
| "eq_int (FloatC x) k = (x = of_int k)"
| "eq_int v k = False"

fun eq_str :: "cell \<Rightarrow> string \<Rightarrow> bool" where
  "eq_str (StrC s) t = (s = t)"
| "eq_str v t = False"

text \<open>\<open>series == d.title()\<close>: the cells hold texts of the model, so a title that is none
  equals no cell.\<close>

fun eq_title :: "cell \<Rightarrow> string option \<Rightarrow> bool" where
  "eq_title v (Some t) = eq_str v t"
| "eq_title v None = False"

text \<open>
  \<open>pd.concat(frames, sort=...)\<close>: \<open>ValueError\<close> for no frames; the rows of the frames one
  after the other.  Frames with equal columns keep them; otherwise the columns are
  the union in order of first appearance.  With \<open>sort=True\<close> the columns are sorted.

  A column that one of the frames lacks is filled with \<open>NaN\<close> in the rows of that frame.
  If the column holds numbers only, it is then a float column, and its integers become
  floats (of the same value, for an integer of up to 53 bits).  A frame without rows
  fills nothing in and leaves the column as it is.
\<close>

definition lacking :: "dataframe list \<Rightarrow> string \<Rightarrow> bool" where
  "lacking frames c \<longleftrightarrow>
     c \<in> set (concat (map columns frames)) \<and>
     (\<exists>f \<in> set frames. rows f \<noteq> [] \<and> c \<notin> set (columns f))"

definition numeric :: "dataframe list \<Rightarrow> string \<Rightarrow> bool" where
  "numeric frames c \<longleftrightarrow>
     (\<forall>f \<in> set frames. \<forall>r \<in> set (rows f).
        case cell_of r c of IntC n \<Rightarrow> True | FloatC x \<Rightarrow> True | NaN \<Rightarrow> True | _ \<Rightarrow> False)"

definition as_float :: "cell \<Rightarrow> cell" where
  "as_float v = (case v of IntC n \<Rightarrow> FloatC (of_int n) | _ \<Rightarrow> v)"

definition upcast :: "dataframe list \<Rightarrow> row \<Rightarrow> row" where
  "upcast frames r =
     map (\<lambda>(c, v). (c, if lacking frames c \<and> numeric frames c then as_float v else v)) r"

definition combined_columns :: "bool \<Rightarrow> string list list \<Rightarrow> string list" where
  "combined_columns sort_cols cs =
     (let u = (if \<forall>c \<in> set cs. c = hd cs then hd cs else rev (remdups (rev (concat cs))))
      in if sort_cols then sort u else u)"

definition pd_concat :: "bool \<Rightarrow> dataframe list \<Rightarrow> py_error + dataframe" where
  "pd_concat sort_cols frames =
     (if frames = [] then Inl ValueError
      else Inr \<lparr>columns = combined_columns sort_cols (map columns frames),
                rows = map (upcast frames) (concat (map rows frames))\<rparr>)"

text \<open>A list comprehension whose element expression can raise: the elements are
  evaluated in order and the first exception ends the comprehension.\<close>

fun sequence :: "('e + 'a) list \<Rightarrow> 'e + 'a list" where
  "sequence [] = Inr []"
| "sequence (x # xs) =
     (case x of
        Inl e \<Rightarrow> Inl e
      | Inr v \<Rightarrow> (case sequence xs of Inl e \<Rightarrow> Inl e | Inr vs \<Rightarrow> Inr (v # vs)))"

text \<open>\<open>t.index(x)\<close> on a tuple: the first position of \<open>x\<close>, or \<open>ValueError\<close>.\<close>

fun index :: "'a list \<Rightarrow> 'a \<Rightarrow> py_error + nat" where
  "index [] x = Inl ValueError"
| "index (y # ys) x =
     (if x = y then Inr 0
      else (case index ys x of Inl e \<Rightarrow> Inl e | Inr i \<Rightarrow> Inr (Suc i)))"

section \<open>Loading: \<open>load_data\<close>\<close>

text \<open>
  What \<open>load_data\<close> takes from outside the program: the file system as \<open>pd.read_csv\<close> sees
  it, and \<open>pd.to_datetime\<close> on one cell (nothing when the cell cannot be parsed).  A path
  maps to the table read from it, or to the reason why \<open>pd.read_csv\<close> fails on it: there
  is no such file, the file may not be read, the path is a directory, the file has no
  columns (a file of 0 bytes), its lines cannot be parsed, its bytes are not UTF-8, or
  any other failure, given by the name of the exception class.  Reading a file raises
  neither \<open>SystemExit\<close> nor \<open>EOFError\<close>, so these are no failures of \<open>pd.read_csv\<close>.
\<close>

datatype read_failure =
  Missing | Denied | Directory | Empty | Malformed | Undecodable | Other string

record world =
  read_csv :: "string \<Rightarrow> read_failure + dataframe"
  to_datetime :: "cell \<rightharpoonup> datetime"

text \<open>The exception that \<open>pd.read_csv(path)\<close> raises for each failure: the \<open>OSError\<close> of
  \<open>open\<close>, or the error of the pandas parser.\<close>

fun read_csv_error :: "string \<Rightarrow> read_failure \<Rightarrow> py_error" where
  "read_csv_error path Missing = FileNotFoundError path"
| "read_csv_error path Denied = PermissionError path"
| "read_csv_error path Directory = IsADirectoryError path"
| "read_csv_error path Empty = EmptyDataError"
| "read_csv_error path Malformed = ParserError"
| "read_csv_error path Undecodable = UnicodeDecodeError"
| "read_csv_error path (Other name) = OtherError name"

text \<open>\<open>pd.read_csv(CITY_DATA[c])\<close>: the dictionary lookup raises \<open>KeyError\<close> first.\<close>

definition read_city :: "world \<Rightarrow> string \<Rightarrow> py_error + dataframe" where
  "read_city w c =
     (case map_of CITY_DATA c of
        None \<Rightarrow> Inl (KeyError c)
      | Some path \<Rightarrow>
          (case read_csv w path of
             Inl failure \<Rightarrow> Inl (read_csv_error path failure)
           | Inr df \<Rightarrow> Inr df))"

text \<open>Lines 89 to 92.\<close>

definition read_cities :: "world \<Rightarrow> choice \<Rightarrow> py_error + dataframe" where
  "read_cities w city =
     (case city of
        StrList cs \<Rightarrow>
          (case sequence (map (read_city w) cs) of
             Inl e \<Rightarrow> Inl e
           | Inr frames \<Rightarrow> pd_concat True frames)
      | Str c \<Rightarrow> read_city w c)"

text \<open>The accessors \<open>.dt.month\<close> and \<open>.dt.hour\<close> give an integer column, or a float column
  with \<open>NaN\<close> at each \<open>NaT\<close> when there is one; \<open>.dt.day_name()\<close> gives the English name.\<close>

fun day_name :: "day \<Rightarrow> string" where
  "day_name Monday = ''Monday''"
| "day_name Tuesday = ''Tuesday''"
| "day_name Wednesday = ''Wednesday''"
| "day_name Thursday = ''Thursday''"
| "day_name Friday = ''Friday''"
| "day_name Saturday = ''Saturday''"
| "day_name Sunday = ''Sunday''"

definition dt_field :: "(datetime \<Rightarrow> int) \<Rightarrow> datetime list \<Rightarrow> series" where
  "dt_field f ts =
     (if NaT \<in> set ts
      then map (\<lambda>t. case t of NaT \<Rightarrow> NaN | Timestamp m d h \<Rightarrow> FloatC (of_int (f t))) ts
      else map (\<lambda>t. IntC (f t)) ts)"

definition dt_day_name :: "datetime list \<Rightarrow> series" where
  "dt_day_name ts = map (\<lambda>t. case t of NaT \<Rightarrow> NaN | Timestamp m d h \<Rightarrow> StrC (day_name d)) ts"

text \<open>Lines 95 to 98: the derived columns.\<close>

definition add_time_columns :: "world \<Rightarrow> dataframe \<Rightarrow> py_error + dataframe" where
  "add_time_columns w df =
     (case getitem df ''Start Time'' of
        Inl e \<Rightarrow> Inl e
      | Inr col \<Rightarrow>
          (case sequence (map (\<lambda>v. case to_datetime w v of None \<Rightarrow> Inl ValueError | Some t \<Rightarrow> Inr t) col) of
             Inl e \<Rightarrow> Inl e
           | Inr ts \<Rightarrow>
               (let df1 = setitem df ''Start Time'' (map TimeC ts);
                    df2 = setitem df1 ''Month'' (dt_field ts_month ts);
                    df3 = setitem df2 ''Weekday'' (dt_day_name ts);
                    df4 = setitem df3 ''Start Hour'' (dt_field ts_hour ts)
                in Inr df4)))"

text \<open>Lines 100 to 104: one selection per chosen month, concatenated.\<close>

definition select_month :: "dataframe \<Rightarrow> string \<Rightarrow> py_error + dataframe" where
  "select_month df m =
     (case getitem df ''Month'' of
        Inl e \<Rightarrow> Inl e
      | Inr col \<Rightarrow>
          (case index months m of
             Inl e \<Rightarrow> Inl e
           | Inr i \<Rightarrow> Inr (boolean_index df (map (\<lambda>v. eq_int v (int i + 1)) col))))"

definition filter_month :: "dataframe \<Rightarrow> choice \<Rightarrow> py_error + dataframe" where
  "filter_month df month =
     (case month of
        StrList ms \<Rightarrow>
          (case sequence (map (select_month df) ms) of
             Inl e \<Rightarrow> Inl e
           | Inr frames \<Rightarrow> pd_concat False frames)
      | Str m \<Rightarrow> select_month df m)"

text \<open>Lines 106 to 110: one selection per chosen weekday, concatenated.\<close>

definition select_day :: "dataframe \<Rightarrow> string \<Rightarrow> py_error + dataframe" where
  "select_day df d =
     (case getitem df ''Weekday'' of
        Inl e \<Rightarrow> Inl e
      | Inr col \<Rightarrow> Inr (boolean_index df (map (\<lambda>v. eq_title v (title d)) col)))"

definition filter_day :: "dataframe \<Rightarrow> choice \<Rightarrow> py_error + dataframe" where
  "filter_day df day =
     (case day of
        StrList ds \<Rightarrow>
          (case sequence (map (select_day df) ds) of
             Inl e \<Rightarrow> Inl e
           | Inr frames \<Rightarrow> pd_concat False frames)
      | Str d \<Rightarrow> select_day df d)"

text \<open>The filter step of \<open>load_data\<close>, lines 100 to 110.\<close>

definition filter_step :: "dataframe \<Rightarrow> choice \<Rightarrow> choice \<Rightarrow> py_error + dataframe" where
  "filter_step df month day =
     (case filter_month df month of
        Inl e \<Rightarrow> Inl e
      | Inr df' \<Rightarrow> filter_day df' day)"

definition load_data :: "world \<Rightarrow> choice \<Rightarrow> choice \<Rightarrow> choice \<Rightarrow> py_error + dataframe" where
  "load_data w city month day =
     (case read_cities w city of
        Inl e \<Rightarrow> Inl e
      | Inr df \<Rightarrow>
          (case add_time_columns w df of
             Inl e \<Rightarrow> Inl e
           | Inr df' \<Rightarrow> filter_step df' month day))"

section \<open>Output\<close>

text \<open>
  What a \<open>print\<close> call writes: a line of text; the rendering \<open>to_string()\<close> of a slice of
  the table (its rows) or of a \<open>value_counts()\<close> result (its values with their counts);
  or a line that the model does not render (\<open>Inexact\<close>), because its text depends on
  binary64 rounding or has a character above U+00FF.  The wall-clock lines (``This took
  ... seconds'') and the fixed banners are left out.
\<close>

datatype out = Text string | Page "row list" | Counts "(cell \<times> nat) list" | Inexact

section \<open>Browsing: \<open>display_raw_data\<close>\<close>

lemma get_user_choice_shorter:
  "get_user_choice valid inp = Inr (c, rest) \<Longrightarrow> length rest < length inp"
  by (induction inp) (auto simp: Let_def split: if_splits)

text \<open>
  The \<open>while True\<close> loop of lines 234 to 243.  \<open>shown\<close> collects what the loop has
  printed.  The cursor \<open>start_index\<close> is a Python \<open>int\<close> that starts at 0 and only grows,
  so it is a natural number.  The loop stops when the advanced cursor reaches the
  length of the table, whatever the input is.
\<close>

function raw_data_loop ::
  "dataframe \<Rightarrow> nat \<Rightarrow> string list \<Rightarrow> out list \<Rightarrow> py_error + (nat \<times> string list \<times> out list)" where
  "raw_data_loop df start_index inp shown =
     (let shown' = shown @ [Page (take 5 (drop start_index (rows df)))];
          start_index' = start_index + 5
      in if start_index' \<ge> length (rows df)
         then Inr (start_index', inp, shown' @ [Text ''No more data to display.''])
         else (case get_user_choice [''y'', ''n''] inp of
                 Inl e \<Rightarrow> Inl e
               | Inr (answer, inp') \<Rightarrow>
                   if answer = Str ''n'' then Inr (start_index', inp', shown')
                   else raw_data_loop df start_index' inp' shown'))"
  by pat_completeness auto
termination
  by (relation "measure (\<lambda>(df, start_index, inp, shown). length (rows df) - start_index)") auto

declare raw_data_loop.simps [simp del]

text \<open>Lines 227 to 245.\<close>

definition display_raw_data ::
  "dataframe \<Rightarrow> nat \<Rightarrow> string list \<Rightarrow> py_error + (nat \<times> string list \<times> out list)" where
  "display_raw_data df start_index inp =
     (if start_index > 0 then
        (case get_user_choice [''y'', ''n''] inp of
           Inl e \<Rightarrow> Inl e
         | Inr (continue_last, inp') \<Rightarrow>
             raw_data_loop df (if continue_last = Str ''n'' then 0 else start_index) inp' [])
      else raw_data_loop df start_index inp [])"

section \<open>Numbers as text\<close>

text \<open>\<open>str(n)\<close> for a Python \<open>int\<close>.\<close>

fun digits :: "nat \<Rightarrow> string" where
  "digits n =
     (if n < 10 then [''0123456789'' ! n]
      else digits (n div 10) @ [''0123456789'' ! (n mod 10)])"

declare digits.simps [simp del]

definition str_int :: "int \<Rightarrow> string" where
  "str_int n = (if n < 0 then CHR ''-'' # digits (nat (- n)) else digits (nat n))"

text \<open>
  A binary64 value is \<open>NaNf\<close>, or \<open>Exact q\<close> when the model holds its value \<open>q\<close> exactly, or
  \<open>Rounded\<close> when its value depends on rounding, which the model does not follow.

  \<open>exact64 q\<close> is a sufficient test for \<open>q\<close> to be a binary64 value: \<open>q\<close> is a multiple of
  \<open>2^-15\<close> below \<open>2^38\<close> in magnitude, so its numerator has fewer than 53 bits.

  \<open>float_str q\<close> is \<open>str(x)\<close> for the binary64 value \<open>q\<close> where the decimal expansion of \<open>q\<close>
  has at most 15 significant digits, no exponent is printed (\<open>q\<close> is zero or at least
  \<open>0.0001\<close>), and so the shortest text that reads back as \<open>q\<close> is that expansion, with
  \<open>.0\<close> for a whole number; elsewhere it is \<open>None\<close>.
\<close>

datatype float64 = NaNf | Exact rat | Rounded

definition exact64 :: "rat \<Rightarrow> bool" where
  "exact64 q \<longleftrightarrow> of_int \<lfloor>q * 32768\<rfloor> = q * 32768 \<and> \<bar>q\<bar> < 274877906944"

fun frac_digits :: "nat \<Rightarrow> rat \<Rightarrow> string option" where
  "frac_digits 0 f = (if f = 0 then Some [] else None)"
| "frac_digits (Suc n) f =
     (if f = 0 then Some []
      else (case frac_digits n (10 * f - of_int \<lfloor>10 * f\<rfloor>) of
              None \<Rightarrow> None
            | Some ds \<Rightarrow> Some ((''0123456789'' ! nat \<lfloor>10 * f\<rfloor>) # ds)))"

definition float_str :: "rat \<Rightarrow> string option" where
  "float_str q =
     (if \<not> exact64 q \<or> (q \<noteq> 0 \<and> \<bar>q\<bar> < 1 / 10000) then None
      else (case frac_digits 15 (\<bar>q\<bar> - of_int \<lfloor>\<bar>q\<bar>\<rfloor>) of
              None \<Rightarrow> None
            | Some ds \<Rightarrow>
                if length (digits (nat \<lfloor>\<bar>q\<bar>\<rfloor>)) + length ds > 15 then None
                else Some ((if q < 0 then ''-'' else '''') @ digits (nat \<lfloor>\<bar>q\<bar>\<rfloor>) @ ''.''
                           @ (if ds = [] then ''0'' else ds))))"

definition str_float :: "float64 \<Rightarrow> string option" where
  "str_float x = (case x of NaNf \<Rightarrow> Some ''nan'' | Exact q \<Rightarrow> float_str q | Rounded \<Rightarrow> None)"

text \<open>\<open>x // k\<close> and \<open>x % k\<close> for a float \<open>x\<close> and a positive \<open>int\<close> \<open>k\<close>: exact on an exact
  value (the quotient is a whole number and the remainder is \<open>x\<close> minus a multiple of
  \<open>k\<close> on the grid of \<open>x\<close>).\<close>

definition float_floordiv :: "float64 \<Rightarrow> int \<Rightarrow> float64" where
  "float_floordiv x k =
     (case x of Exact q \<Rightarrow> Exact (of_int \<lfloor>q / of_int k\<rfloor>) | NaNf \<Rightarrow> NaNf | Rounded \<Rightarrow> Rounded)"

definition float_mod :: "float64 \<Rightarrow> int \<Rightarrow> float64" where
  "float_mod x k =
     (case x of
        Exact q \<Rightarrow> Exact (q - of_int k * of_int \<lfloor>q / of_int k\<rfloor>)
      | NaNf \<Rightarrow> NaNf
      | Rounded \<Rightarrow> Rounded)"

text \<open>A printed line built from pieces, one of which may be a text the model does not
  render.\<close>

definition printed :: "string option list \<Rightarrow> out" where
  "printed pieces =
     (if None \<in> set pieces then Inexact else Text (concat (map the pieces)))"

section \<open>Reductions of a column\<close>

definition is_int :: "cell \<Rightarrow> bool" where
  "is_int v = (case v of IntC n \<Rightarrow> True | _ \<Rightarrow> False)"

definition is_number :: "cell \<Rightarrow> bool" where
  "is_number v = (case v of IntC n \<Rightarrow> True | FloatC q \<Rightarrow> True | _ \<Rightarrow> False)"

definition is_str :: "cell \<Rightarrow> bool" where
  "is_str v = (case v of StrC s \<Rightarrow> True | _ \<Rightarrow> False)"

definition int_of :: "cell \<Rightarrow> int" where
  "int_of v = (case v of IntC n \<Rightarrow> n | _ \<Rightarrow> 0)"

definition number_of :: "cell \<Rightarrow> rat" where
  "number_of v = (case v of IntC n \<Rightarrow> of_int n | FloatC q \<Rightarrow> q | _ \<Rightarrow> 0)"

definition str_of :: "cell \<Rightarrow> string" where
  "str_of v = (case v of StrC s \<Rightarrow> s | _ \<Rightarrow> [])"

definition dropna :: "series \<Rightarrow> series" where
  "dropna s = filter (\<lambda>v. v \<noteq> NaN) s"

text \<open>
  \<open>Series.mode()\<close>: the values other than \<open>NaN\<close> that occur most often, sorted.  Numbers
  sort by value and text by code point; pandas leaves modes it cannot compare unsorted.
\<close>

definition cell_le :: "cell \<Rightarrow> cell \<Rightarrow> bool" where
  "cell_le u v =
     (if is_number u \<and> is_number v then number_of u \<le> number_of v
      else if is_str u \<and> is_str v then str_of u \<le> str_of v
      else True)"

fun insert_cell :: "cell \<Rightarrow> series \<Rightarrow> series" where
  "insert_cell v [] = [v]"
| "insert_cell v (u # us) = (if cell_le v u then v # u # us else u # insert_cell v us)"

definition sort_cells :: "series \<Rightarrow> series" where
  "sort_cells s = foldr insert_cell s []"

definition mode :: "series \<Rightarrow> series" where
  "mode s =
     (let vs = dropna s;
          most = foldr max (map (count_list vs) vs) 0
      in sort_cells (filter (\<lambda>v. count_list vs v = most) (remdups vs)))"

text \<open>\<open>s.mode()[0]\<close>: the label \<open>0\<close> of the result; on an empty result the lookup raises
  \<open>KeyError: 0\<close> (an \<open>IndexError\<close> in pandas before 1.0: a \<open>LookupError\<close> either way).\<close>

definition mode0 :: "series \<Rightarrow> py_error + cell" where
  "mode0 s = (case mode s of [] \<Rightarrow> Inl (KeyError ''0'') | v # vs \<Rightarrow> Inr v)"

text \<open>\<open>Series.value_counts()\<close>: each value other than \<open>NaN\<close> with its count, the most
  frequent first.\<close>

definition value_counts :: "series \<Rightarrow> (cell \<times> nat) list" where
  "value_counts s =
     (let vs = dropna s
      in sort_key (\<lambda>(v, n). - int n) (map (\<lambda>v. (v, count_list vs v)) (rev (remdups (rev vs)))))"

text \<open>
  \<open>Series.min()\<close> and \<open>Series.max()\<close> skip \<open>NaN\<close>; of no values they are \<open>NaN\<close>.  Numbers
  compare by value, text by code point; other columns raise \<open>TypeError\<close> (at the
  comparison when the kinds are mixed, and for timestamps at the \<open>int(...)\<close> that the
  program applies to the result).
\<close>

definition series_extreme :: "bool \<Rightarrow> series \<Rightarrow> py_error + cell" where
  "series_extreme largest s =
     (let vs = dropna s in
      if vs = [] then Inr NaN
      else if \<forall>v \<in> set vs. is_int v then
        Inr (IntC (foldr (if largest then max else min) (map int_of (tl vs)) (int_of (hd vs))))
      else if \<forall>v \<in> set vs. is_number v then
        Inr (FloatC (foldr (if largest then max else min) (map number_of (tl vs)) (number_of (hd vs))))
      else if \<forall>v \<in> set vs. is_str v then
        Inr (StrC (foldr (if largest then max else min) (map str_of (tl vs)) (str_of (hd vs))))
      else Inl TypeError)"

text \<open>\<open>int(x)\<close>: a float is truncated towards zero, \<open>NaN\<close> raises \<open>ValueError\<close>, a timestamp
  raises \<open>TypeError\<close>.  Text is read as a decimal literal: optional sign, digits; any
  other text raises \<open>ValueError\<close> (digit grouping with underscores is not modelled).\<close>

definition nat_of_digits :: "string \<Rightarrow> nat" where
  "nat_of_digits s = foldl (\<lambda>n c. 10 * n + (of_char c - 48)) 0 s"

definition int_of_text :: "string \<Rightarrow> py_error + int" where
  "int_of_text s =
     (let t = strip s;
          neg = (t \<noteq> [] \<and> hd t = CHR ''-'');
          ds = (if t \<noteq> [] \<and> (hd t = CHR ''-'' \<or> hd t = CHR ''+'') then tl t else t)
      in if ds = [] \<or> (\<exists>c \<in> set ds. c \<notin> set ''0123456789'') then Inl ValueError
         else Inr (if neg then - int (nat_of_digits ds) else int (nat_of_digits ds)))"

definition py_int :: "cell \<Rightarrow> py_error + int" where
  "py_int v =
     (case v of
        IntC n \<Rightarrow> Inr n
      | FloatC q \<Rightarrow> Inr (if q < 0 then \<lceil>q\<rceil> else \<lfloor>q\<rfloor>)
      | NaN \<Rightarrow> Inl ValueError
      | StrC s \<Rightarrow> int_of_text s
      | TimeC t \<Rightarrow> Inl TypeError)"

text \<open>\<open>str(x)\<close> of a cell.  The text of a timestamp is not modelled.\<close>

definition py_str :: "cell \<Rightarrow> string option" where
  "py_str v =
     (case v of
        IntC n \<Rightarrow> Some (str_int n)
      | FloatC q \<Rightarrow> float_str q
      | StrC s \<Rightarrow> Some s
      | NaN \<Rightarrow> Some ''nan''
      | TimeC t \<Rightarrow> None)"

text \<open>\<open>'text' + x\<close> needs \<open>x\<close> to be a \<open>str\<close>.\<close>

definition as_str :: "cell \<Rightarrow> py_error + string" where
  "as_str v = (case v of StrC s \<Rightarrow> Inr s | _ \<Rightarrow> Inl TypeError)"

text \<open>\<open>t[i]\<close> on a tuple: a negative index counts from the end.\<close>

definition tuple_get :: "'a list \<Rightarrow> int \<Rightarrow> py_error + 'a" where
  "tuple_get xs i =
     (if 0 \<le> i \<and> i < int (length xs) then Inr (xs ! nat i)
      else if - int (length xs) \<le> i \<and> i < 0 then Inr (xs ! nat (int (length xs) + i))
      else Inl IndexError)"

section \<open>The statistics: \<open>display_time_stats\<close>\<close>

text \<open>
  Each \<open>display_...\<close> function returns the table as it leaves it (Python passes the
  \<open>DataFrame\<close> by reference, so an assignment to a column is seen by \<open>main\<close>) and what it
  printed.  An exception ends the function at the statement that raises it.
\<close>

text \<open>Line 128: \<open>months[most_common_month - 1].title()\<close>.  A tuple index must be an
  integer: a float month (the column has a \<open>NaT\<close>) raises \<open>TypeError\<close>, and so does
  subtracting 1 from text or from a timestamp.\<close>

definition month_title :: "cell \<Rightarrow> py_error + string option" where
  "month_title most_common_month =
     (case most_common_month of
        IntC k \<Rightarrow> (case tuple_get months (k - 1) of Inl e \<Rightarrow> Inl e | Inr m \<Rightarrow> Inr (title m))
      | _ \<Rightarrow> Inl TypeError)"

definition display_time_stats :: "dataframe \<Rightarrow> py_error + (dataframe \<times> out list)" where
  "display_time_stats df =
     (case getitem df ''Month'' of Inl e \<Rightarrow> Inl e | Inr month_col \<Rightarrow>
      case mode0 month_col of Inl e \<Rightarrow> Inl e | Inr most_common_month \<Rightarrow>
      case month_title most_common_month of Inl e \<Rightarrow> Inl e | Inr month_text \<Rightarrow>
      case getitem df ''Weekday'' of Inl e \<Rightarrow> Inl e | Inr day_col \<Rightarrow>
      case mode0 day_col of Inl e \<Rightarrow> Inl e | Inr most_common_day \<Rightarrow>
      case as_str most_common_day of Inl e \<Rightarrow> Inl e | Inr day_text \<Rightarrow>
      case getitem df ''Start Hour'' of Inl e \<Rightarrow> Inl e | Inr hour_col \<Rightarrow>
      case mode0 hour_col of Inl e \<Rightarrow> Inl e | Inr most_common_hour \<Rightarrow>
        Inr (df,
             [printed [Some ''Most common month for travel: '', month_text, Some ''.''],
              Text (''Most common day of the week: '' @ day_text @ ''.''),
              printed [Some ''Most common start hour: '', py_str most_common_hour, Some ''.'']]))"

section \<open>The statistics: \<open>display_station_stats\<close>\<close>

text \<open>
  Line 155, \<open>df['Start Station'] + ' - ' + df['End Station']\<close>, row by row: text joined
  with the separator; \<open>NaN\<close> where the start or (for a text start) the end is \<open>NaN\<close>;
  \<open>TypeError\<close> for a start that is not text (it cannot be added to \<open>' - '\<close>), and for a
  text start with an end that is neither text nor \<open>NaN\<close>.
\<close>

definition start_end :: "cell \<Rightarrow> cell \<Rightarrow> py_error + cell" where
  "start_end s e =
     (case s of
        StrC a \<Rightarrow> (case e of StrC b \<Rightarrow> Inr (StrC (a @ '' - '' @ b)) | NaN \<Rightarrow> Inr NaN | _ \<Rightarrow> Inl TypeError)
      | NaN \<Rightarrow> Inr NaN
      | _ \<Rightarrow> Inl TypeError)"

definition display_station_stats :: "dataframe \<Rightarrow> py_error + (dataframe \<times> out list)" where
  "display_station_stats df =
     (case getitem df ''Start Station'' of Inl e \<Rightarrow> Inl e | Inr start_col \<Rightarrow>
      case mode0 start_col of Inl e \<Rightarrow> Inl e | Inr most_common_start_station \<Rightarrow>
      case as_str most_common_start_station of Inl e \<Rightarrow> Inl e | Inr start_text \<Rightarrow>
      case getitem df ''End Station'' of Inl e \<Rightarrow> Inl e | Inr end_col \<Rightarrow>
      case mode0 end_col of Inl e \<Rightarrow> Inl e | Inr most_common_end_station \<Rightarrow>
      case as_str most_common_end_station of Inl e \<Rightarrow> Inl e | Inr end_text \<Rightarrow>
      case sequence (map (\<lambda>(s, e). start_end s e) (zip start_col end_col)) of
        Inl e \<Rightarrow> Inl e
      | Inr combination \<Rightarrow>
          (let df' = setitem df ''Start-End Combination'' combination in
           case mode0 combination of Inl e \<Rightarrow> Inl e | Inr most_common_combination \<Rightarrow>
           case as_str most_common_combination of Inl e \<Rightarrow> Inl e | Inr combination_text \<Rightarrow>
             Inr (df',
                  [Text (''Most common start station: '' @ start_text),
                   Text (''Most common end station: '' @ end_text),
                   Text (''Most common start-end station combination: '' @ combination_text)])))"

section \<open>The statistics: \<open>display_trip_duration_stats\<close>\<close>

text \<open>Lines 173 and 177: the two f-strings.  On a Python \<open>int\<close>, \<open>//\<close> and \<open>%\<close> are \<open>div\<close>
  and \<open>mod\<close>; \<open>a % b // c\<close> is \<open>(a % b) // c\<close>.\<close>

definition total_duration_str :: "int \<Rightarrow> string" where
  "total_duration_str total_duration =
     str_int (total_duration div 86400) @ ''d '' @
     str_int (total_duration mod 86400 div 3600) @ ''h '' @
     str_int (total_duration mod 3600 div 60) @ ''m '' @
     str_int (total_duration mod 60) @ ''s''"

definition mean_duration_str :: "float64 \<Rightarrow> string option list" where
  "mean_duration_str mean_duration =
     [str_float (float_floordiv mean_duration 60), Some ''m '',
      str_float (float_mod mean_duration 60), Some ''s'']"

text \<open>
  \<open>Series.mean()\<close> of an integer column: the sum, accumulated in binary64, divided by
  the count; \<open>NaN\<close> for no values.  The model holds it when no step rounds: the
  magnitudes add up to less than \<open>2^53\<close> and the quotient is a binary64 value.
\<close>

definition int_mean :: "int list \<Rightarrow> float64" where
  "int_mean ns =
     (if ns = [] then NaNf
      else if sum_list (map abs ns) < 9007199254740992 \<and>
              exact64 (of_int (sum_list ns) / of_int (int (length ns)))
           then Exact (of_int (sum_list ns) / of_int (int (length ns)))
      else Rounded)"

text \<open>An integer column has the type \<open>int64\<close>: it holds the integers from \<open>-2^63\<close> to
  \<open>2^63 - 1\<close>, and \<open>sum()\<close> adds them in \<open>int64\<close>, where the addition wraps around.\<close>

definition in_int64 :: "int \<Rightarrow> bool" where
  "in_int64 n \<longleftrightarrow> - 9223372036854775808 \<le> n \<and> n < 9223372036854775808"

definition wrap_int64 :: "int \<Rightarrow> int" where
  "wrap_int64 n = (n + 9223372036854775808) mod 18446744073709551616 - 9223372036854775808"

text \<open>
  Lines 172 to 178.  A column holding text or timestamps raises \<open>TypeError\<close> (at the
  first \<open>//\<close>, or in the sum).  For a non-empty \<open>int64\<close> column the total is an integer,
  the wrapped sum.  A float column (one with a float or a \<open>NaN\<close>) prints floats the
  model does not follow, and so does a column with an integer outside \<open>int64\<close>; and of a
  column without rows the model does not know whether it is an integer or a float
  column.
\<close>

definition display_trip_duration_stats :: "dataframe \<Rightarrow> py_error + (dataframe \<times> out list)" where
  "display_trip_duration_stats df =
     (case getitem df ''Trip Duration'' of Inl e \<Rightarrow> Inl e | Inr col \<Rightarrow>
      if \<exists>v \<in> set col. \<not> is_number v \<and> v \<noteq> NaN then Inl TypeError
      else if col \<noteq> [] \<and> (\<forall>v \<in> set col. is_int v \<and> in_int64 (int_of v)) then
        Inr (df,
             [Text (''Total travel time: '' @
                    total_duration_str (wrap_int64 (sum_list (map int_of col))) @ ''.''),
              printed ([Some ''Average travel time: ''] @ mean_duration_str (int_mean (map int_of col))
                       @ [Some ''.''])])
      else Inr (df, [Inexact, Inexact]))"

section \<open>The statistics: \<open>display_user_stats\<close>\<close>

text \<open>\<open>city.title()\<close>: \<open>city\<close> is what \<open>get_filters\<close> returned, a \<open>str\<close> or a \<open>list\<close>; a list has
  no method \<open>title\<close>.\<close>

definition city_title :: "choice \<Rightarrow> py_error + string option" where
  "city_title city = (case city of Str c \<Rightarrow> Inr (title c) | StrList cs \<Rightarrow> Inl AttributeError)"

text \<open>\<open>try: body except KeyError: handler\<close>.\<close>

definition except_KeyError :: "(py_error + 'a) \<Rightarrow> (py_error + 'a) \<Rightarrow> py_error + 'a" where
  "except_KeyError body handler =
     (case body of Inl (KeyError k) \<Rightarrow> handler | _ \<Rightarrow> body)"

text \<open>Lines 198 to 199 and 204 to 209: the bodies of the two \<open>try\<close> statements.\<close>

definition gender_stats :: "dataframe \<Rightarrow> py_error + out list" where
  "gender_stats df =
     (case getitem df ''Gender'' of
        Inl e \<Rightarrow> Inl e
      | Inr col \<Rightarrow> Inr [Counts (value_counts col)])"

definition birth_year_stats :: "dataframe \<Rightarrow> py_error + out list" where
  "birth_year_stats df =
     (case getitem df ''Birth Year'' of Inl e \<Rightarrow> Inl e | Inr col \<Rightarrow>
      case series_extreme False col of Inl e \<Rightarrow> Inl e | Inr lo \<Rightarrow>
      case py_int lo of Inl e \<Rightarrow> Inl e | Inr oldest_birth_year \<Rightarrow>
      case series_extreme True col of Inl e \<Rightarrow> Inl e | Inr hi \<Rightarrow>
      case py_int hi of Inl e \<Rightarrow> Inl e | Inr youngest_birth_year \<Rightarrow>
      case mode0 col of Inl e \<Rightarrow> Inl e | Inr m \<Rightarrow>
      case py_int m of Inl e \<Rightarrow> Inl e | Inr common_birth_year \<Rightarrow>
        Inr [Text (''Oldest rider was born in: '' @ str_int oldest_birth_year),
             Text (''Youngest rider was born in: '' @ str_int youngest_birth_year),
             Text (''Most common birth year: '' @ str_int common_birth_year)])"

definition unavailable :: "string \<Rightarrow> choice \<Rightarrow> py_error + out list" where
  "unavailable what city =
     (case city_title city of
        Inl e \<Rightarrow> Inl e
      | Inr t \<Rightarrow> Inr [printed [Some (''No '' @ what @ '' data available for ''), t, Some ''.'']])"

definition display_user_stats :: "dataframe \<Rightarrow> choice \<Rightarrow> py_error + (dataframe \<times> out list)" where
  "display_user_stats df city =
     (case getitem df ''UserType'' of Inl e \<Rightarrow> Inl e | Inr user_col \<Rightarrow>
      case except_KeyError (gender_stats df) (unavailable ''gender'' city) of
        Inl e \<Rightarrow> Inl e
      | Inr gender_out \<Rightarrow>
      case except_KeyError (birth_year_stats df) (unavailable ''birth year'' city) of
        Inl e \<Rightarrow> Inl e
      | Inr birth_out \<Rightarrow>
        Inr (df, [Counts (value_counts user_col)] @ gender_out @ birth_out))"

section \<open>The session: \<open>get_filters\<close> and \<open>main\<close>\<close>

text \<open>Lines 54 to 72.  A confirmation other than the string \<open>y\<close> (\<open>n\<close>, or a list such as
  \<open>['y', 'n']\<close>) starts the prompts again.\<close>

function get_filters ::
  "string list \<Rightarrow> py_error + ((choice \<times> choice \<times> choice) \<times> string list)" where
  "get_filters inp =
     (case get_user_choice (map fst CITY_DATA) inp of Inl e \<Rightarrow> Inl e | Inr (city, inp1) \<Rightarrow>
      case get_user_choice months inp1 of Inl e \<Rightarrow> Inl e | Inr (month, inp2) \<Rightarrow>
      case get_user_choice weekdays inp2 of Inl e \<Rightarrow> Inl e | Inr (day, inp3) \<Rightarrow>
      case get_user_choice [''y'', ''n''] inp3 of Inl e \<Rightarrow> Inl e | Inr (confirmation, inp4) \<Rightarrow>
        if confirmation = Str ''y'' then Inr ((city, month, day), inp4)
        else get_filters inp4)"
  by pat_completeness auto
termination
proof (relation "measure length")
  fix inp x city inp1 y month inp2 z day inp3 u confirmation inp4
  assume "get_user_choice (map fst CITY_DATA) inp = Inr x" "(city, inp1) = x"
    "get_user_choice months inp1 = Inr y" "(month, inp2) = y"
    "get_user_choice weekdays inp2 = Inr z" "(day, inp3) = z"
    "get_user_choice [''y'', ''n''] inp3 = Inr u" "(confirmation, inp4) = u"
  then have "length inp1 < length inp" "length inp2 < length inp1" "length inp3 < length inp2"
    "length inp4 < length inp3"
    by (auto dest: get_user_choice_shorter)
  then show "(inp4, inp) \<in> measure length" by simp
qed simp

declare get_filters.simps [simp del]

lemma raw_data_loop_no_longer:
  "raw_data_loop df i inp shown = Inr (j, rest, shown') \<Longrightarrow> length rest \<le> length inp"
proof (induction df i inp shown rule: raw_data_loop.induct)
  case (1 df start_index inp shown)
  show ?case
  proof (cases "length (rows df) \<le> start_index + 5")
    case True
    with "1.prems" show ?thesis
      by (subst (asm) raw_data_loop.simps) (auto simp: Let_def)
  next
    case False
    from "1.prems" False obtain answer inp' where
      g: "get_user_choice [''y'', ''n''] inp = Inr (answer, inp')"
      and r: "(if answer = Str ''n''
            then Inr (start_index + 5, inp', shown @ [Page (take 5 (drop start_index (rows df)))])
            else raw_data_loop df (start_index + 5) inp'
                   (shown @ [Page (take 5 (drop start_index (rows df)))]))
           = Inr (j, rest, shown')"
      by (subst (asm) raw_data_loop.simps) (auto simp: Let_def split: sum.splits)
    from g have less: "length inp' < length inp" by (rule get_user_choice_shorter)
    show ?thesis
    proof (cases "answer = Str ''n''")
      case True
      with r less show ?thesis by auto
    next
      case no: False
      with r have "raw_data_loop df (start_index + 5) inp'
          (shown @ [Page (take 5 (drop start_index (rows df)))]) = Inr (j, rest, shown')"
        by simp
      then have "length rest \<le> length inp'"
        by (rule "1.IH"[OF refl refl False g refl no])
      with less show ?thesis by simp
    qed
  qed
qed

lemma display_raw_data_no_longer:
  "display_raw_data df i inp = Inr (j, rest, shown) \<Longrightarrow> length rest \<le> length inp"
  by (auto simp: display_raw_data_def split: if_splits sum.splits
      dest!: raw_data_loop_no_longer get_user_choice_shorter)

text \<open>
  The inner \<open>while True\<close> of \<open>main\<close>, lines 256 to 274; it returns the input that is left
  when the user restarts.  A selection that is a list (\<open>ts,ss\<close>) equals none of the
  strings, so no branch runs and the menu is shown again.  What the functions print
  is not kept here.
\<close>

function dispatch ::
  "choice \<Rightarrow> dataframe \<Rightarrow> nat \<Rightarrow> string list \<Rightarrow> py_error + string list" where
  "dispatch city df start_index inp =
     (case get_user_choice [''ts'', ''ss'', ''tds'', ''us'', ''rd'', ''r''] inp of
        Inl e \<Rightarrow> Inl e
      | Inr (selection, inp') \<Rightarrow>
          if selection = Str ''ts'' then
            (case display_time_stats df of
               Inl e \<Rightarrow> Inl e
             | Inr (df', shown) \<Rightarrow> dispatch city df' start_index inp')
          else if selection = Str ''ss'' then
            (case display_station_stats df of
               Inl e \<Rightarrow> Inl e
             | Inr (df', shown) \<Rightarrow> dispatch city df' start_index inp')
          else if selection = Str ''tds'' then
            (case display_trip_duration_stats df of
               Inl e \<Rightarrow> Inl e
             | Inr (df', shown) \<Rightarrow> dispatch city df' start_index inp')
          else if selection = Str ''us'' then
            (case display_user_stats df city of
               Inl e \<Rightarrow> Inl e
             | Inr (df', shown) \<Rightarrow> dispatch city df' start_index inp')
          else if selection = Str ''rd'' then
            (case display_raw_data df start_index inp' of
               Inl e \<Rightarrow> Inl e
             | Inr (start_index', inp'', shown) \<Rightarrow> dispatch city df start_index' inp'')
          else if selection = Str ''r'' then Inr inp'
          else dispatch city df start_index inp')"
  by pat_completeness auto
termination
  by (relation "measure (\<lambda>(city, df, start_index, inp). length inp)")
     (auto dest!: get_user_choice_shorter display_raw_data_no_longer)

declare dispatch.simps [simp del]

lemma get_filters_shorter:
  "get_filters inp = Inr (f, rest) \<Longrightarrow> length rest < length inp"
proof (induction inp rule: get_filters.induct)
  case (1 inp)
  from "1.prems" obtain city inp1 month inp2 day inp3 confirmation inp4 where
    g: "get_user_choice (map fst CITY_DATA) inp = Inr (city, inp1)"
       "get_user_choice months inp1 = Inr (month, inp2)"
       "get_user_choice weekdays inp2 = Inr (day, inp3)"
       "get_user_choice [''y'', ''n''] inp3 = Inr (confirmation, inp4)"
    and r: "(if confirmation = Str ''y'' then Inr ((city, month, day), inp4)
             else get_filters inp4) = Inr (f, rest)"
    by (subst (asm) get_filters.simps) (auto split: sum.splits)
  from g have less: "length inp4 < length inp"
    by (auto dest!: get_user_choice_shorter)
  show ?case
  proof (cases "confirmation = Str ''y''")
    case True
    with r less show ?thesis by auto
  next
    case False
    with r have "get_filters inp4 = Inr (f, rest)" by simp
    then have "length rest < length inp4"
      by (rule "1.IH"[OF g(1) refl g(2) refl g(3) refl g(4) refl False])
    with less show ?thesis by simp
  qed
qed

lemma dispatch_no_longer:
  "dispatch city df i inp = Inr rest \<Longrightarrow> length rest \<le> length inp"
proof (induction city df i inp rule: dispatch.induct)
  case (1 city df start_index inp)
  from "1.prems" obtain selection inp' where
    g: "get_user_choice [''ts'', ''ss'', ''tds'', ''us'', ''rd'', ''r''] inp = Inr (selection, inp')"
    by (subst (asm) dispatch.simps) (auto split: sum.splits)
  then have less: "length inp' < length inp" by (rule get_user_choice_shorter)
  from "1.prems" g show ?case
    apply (subst (asm) dispatch.simps)
    apply (simp split: if_splits sum.splits prod.splits)
    using less "1.IH"[OF g refl] display_raw_data_no_longer
    by (fastforce simp: le_less)+
qed

text \<open>
  \<open>main\<close>, lines 250 to 277: the program.  It returns normally (\<open>Inr ()\<close>) when the user
  declines to restart, and otherwise ends with the exception that reaches the top:
  \<open>SystemExit\<close> from the sentinel, \<open>EOFError\<close> when standard input ends at a prompt, or
  what \<open>load_data\<close> or a statistics function raised; \<open>main\<close> catches nothing.
\<close>

function main :: "world \<Rightarrow> string list \<Rightarrow> py_error + unit" where
  "main w inp =
     (case get_filters inp of Inl e \<Rightarrow> Inl e | Inr ((city, month, day), inp1) \<Rightarrow>
      case load_data w city month day of Inl e \<Rightarrow> Inl e | Inr df \<Rightarrow>
      case dispatch city df 0 inp1 of Inl e \<Rightarrow> Inl e | Inr inp2 \<Rightarrow>
      case get_user_choice [''y'', ''n''] inp2 of Inl e \<Rightarrow> Inl e | Inr (again, inp3) \<Rightarrow>
        if again \<noteq> Str ''y'' then Inr () else main w inp3)"
  by pat_completeness auto
termination
  by (relation "measure (\<lambda>(w, inp). length inp)")
     (auto dest!: get_user_choice_shorter get_filters_shorter dispatch_no_longer)

declare main.simps [simp del]

section \<open>The vocabulary of the properties\<close>

text \<open>A file system that holds the given CSV files and no other file.\<close>

definition files :: "(string \<times> dataframe) list \<Rightarrow> string \<Rightarrow> read_failure + dataframe" where
  "files fs path = (case map_of fs path of None \<Rightarrow> Inl Missing | Some df \<Rightarrow> Inr df)"

text \<open>The names a selector holds, and what it is for a selector to be drawn from a
  canonical tuple: a member, or a non-empty list of distinct members.\<close>

definition selected :: "choice \<Rightarrow> string set" where
  "selected c = (case c of Str s \<Rightarrow> {s} | StrList ss \<Rightarrow> set ss)"

definition canonical :: "string list \<Rightarrow> choice \<Rightarrow> bool" where
  "canonical valid c =
     (case c of
        Str s \<Rightarrow> s \<in> set valid
      | StrList ss \<Rightarrow> ss \<noteq> [] \<and> distinct ss \<and> set ss \<subseteq> set valid)"

text \<open>The row tests of lines 102/104 and 108/110.\<close>

definition month_matches :: "row \<Rightarrow> string \<Rightarrow> bool" where
  "month_matches r m = (case index months m of Inl e \<Rightarrow> False | Inr i \<Rightarrow> eq_int (cell_of r ''Month'') (int i + 1))"

definition day_matches :: "row \<Rightarrow> string \<Rightarrow> bool" where
  "day_matches r d = eq_title (cell_of r ''Weekday'') (title d)"

text \<open>The names of a selector in the order the loops of lines 102 and 108 take them (a
  single name is filtered once).\<close>

definition picks :: "choice \<Rightarrow> string list" where
  "picks c = (case c of Str s \<Rightarrow> [s] | StrList ss \<Rightarrow> ss)"

text \<open>The rows the two selections keep, as a multiset.\<close>

definition keeps :: "choice \<Rightarrow> choice \<Rightarrow> row \<Rightarrow> bool" where
  "keeps month day r \<longleftrightarrow>
     (\<exists>m \<in> selected month. month_matches r m) \<and> (\<exists>d \<in> selected day. day_matches r d)"

definition selection :: "choice \<Rightarrow> choice \<Rightarrow> row list \<Rightarrow> row list" where
  "selection month day xs =
     concat (map (\<lambda>d. filter (\<lambda>r. day_matches r d)
       (concat (map (\<lambda>m. filter (\<lambda>r. month_matches r m) xs) (picks month)))) (picks day))"





text \<open>A line that \<open>get_user_choice\<close> answers with ``Invalid input'': it is not the
  sentinel, and it, or one of its tokens, is not a valid choice.\<close>

definition rejected :: "string list \<Rightarrow> string \<Rightarrow> bool" where
  "rejected valid line \<longleftrightarrow>
     (let u = strip (lower line) in
      u \<noteq> ''end'' \<and>
      (if CHR '','' \<notin> set u then u \<notin> set valid
       else \<exists>t \<in> set (map (\<lambda>i. lower (strip i)) (split (CHR '','') u)). t \<notin> set valid))"

text \<open>A line that is the escape sentinel: it lower-cases and trims to \<open>end\<close>.\<close>

definition sentinel :: "string \<Rightarrow> bool" where
  "sentinel l \<longleftrightarrow> strip (lower l) = ''end''"

text \<open>
  \<open>follows f ext pre\<close>: how \<open>f\<close>, a function that reads standard input, behaves when
  more lines come after \<open>pre\<close>.  If \<open>f\<close> stopped for want of input (\<open>EOFError\<close>), a sentinel
  as the next line makes it raise \<open>SystemExit\<close>.  If it raised anything else, it still
  does.  If it returned, it returns the same with the further lines left unread
  (\<open>ext\<close> puts them into the result).
\<close>

definition follows ::
  "(string list \<Rightarrow> py_error + 'r) \<Rightarrow> ('r \<Rightarrow> string list \<Rightarrow> 'r) \<Rightarrow> string list \<Rightarrow> bool" where
  "follows f ext pre \<longleftrightarrow>
     (case f pre of
        Inl e \<Rightarrow>
          if e = EOFError then \<forall>l rest. sentinel l \<longrightarrow> f (pre @ l # rest) = Inl SystemExit
          else \<forall>xs. f (pre @ xs) = Inl e
      | Inr res \<Rightarrow> \<forall>xs. f (pre @ xs) = Inr (ext res xs))"

text \<open>How the lines a function leaves unread sit in its result: with a value, with the
  cursor and the output of \<open>display_raw_data\<close>, or not at all (\<open>main\<close>).\<close>

abbreviation unread :: "'a \<times> string list \<Rightarrow> string list \<Rightarrow> 'a \<times> string list" where
  "unread \<equiv> \<lambda>(v, r) xs. (v, r @ xs)"

abbreviation unread3 ::
  "nat \<times> string list \<times> out list \<Rightarrow> string list \<Rightarrow> nat \<times> string list \<times> out list" where
  "unread3 \<equiv> \<lambda>(j, r, s) xs. (j, r @ xs, s)"

abbreviation unread_none :: "unit \<Rightarrow> string list \<Rightarrow> unit" where
  "unread_none \<equiv> \<lambda>u xs. u"

text \<open>\<open>EOFError\<close> is raised by \<open>input()\<close> alone: loading and the statistics read no
  input.\<close>

definition no_eof :: "py_error + 'a \<Rightarrow> bool" where
  "no_eof m \<longleftrightarrow> m \<noteq> Inl EOFError"

section \<open>The filter step\<close>

lemma sequence_map_Inr:
  "(\<And>x. x \<in> set xs \<Longrightarrow> f x = Inr (g x)) \<Longrightarrow> sequence (map f xs) = Inr (map g xs)"
  by (induction xs) auto

lemma boolean_index_map:
  "boolean_index df (map Q (rows df)) = df\<lparr>rows := filter Q (rows df)\<rparr>"
proof -
  have "map fst (filter snd (zip xs (map Q xs))) = filter Q xs" for xs :: "row list"
    by (induction xs) auto
  then show ?thesis by (simp add: boolean_index_def)
qed

lemma combined_columns_same:
  "frames \<noteq> [] \<Longrightarrow> (\<And>f. f \<in> set frames \<Longrightarrow> columns f = cs)
    \<Longrightarrow> combined_columns False (map columns frames) = cs"
  by (cases frames) (auto simp: combined_columns_def)

lemma upcast_same_columns:
  assumes "\<And>f. f \<in> set frames \<Longrightarrow> columns f = cs"
  shows "upcast frames r = r"
proof -
  have "\<not> lacking frames c" for c
    using assms by (auto simp: lacking_def)
  then have "upcast frames r = map (\<lambda>(c, v). (c, v)) r"
    by (simp add: upcast_def)
  then show ?thesis by simp
qed

lemma pd_concat_selections:
  assumes "ms \<noteq> []"
  shows "pd_concat False (map (\<lambda>m. df\<lparr>rows := F m\<rparr>) ms)
           = Inr (df\<lparr>rows := concat (map F ms)\<rparr>)"
proof -
  let ?frames = "map (\<lambda>m. df\<lparr>rows := F m\<rparr>) ms"
  have "combined_columns False (map columns ?frames) = columns df"
    using assms by (intro combined_columns_same) auto
  moreover have "upcast ?frames = (\<lambda>r. r)"
    by (rule ext) (rule upcast_same_columns[where cs = "columns df"], auto)
  ultimately show ?thesis using assms
    by (simp add: pd_concat_def comp_def)
qed

lemma index_months:
  "m \<in> set months \<Longrightarrow> \<exists>i. index months m = Inr i"
  by (auto simp: months_def)

lemma select_month_ok:
  assumes "''Month'' \<in> set (columns df)" "m \<in> set months"
  shows "select_month df m = Inr (df\<lparr>rows := filter (\<lambda>r. month_matches r m) (rows df)\<rparr>)"
proof -
  obtain i where i: "index months m = Inr i" using index_months[OF assms(2)] by blast
  show ?thesis using assms(1) i
    by (simp add: select_month_def getitem_def month_matches_def boolean_index_map comp_def)
qed

lemma select_day_ok:
  assumes "''Weekday'' \<in> set (columns df)"
  shows "select_day df d = Inr (df\<lparr>rows := filter (\<lambda>r. day_matches r d) (rows df)\<rparr>)"
  using assms by (simp add: select_day_def getitem_def day_matches_def boolean_index_map comp_def)

lemma filter_month_ok:
  assumes "''Month'' \<in> set (columns df)" "canonical months month"
  shows "filter_month df month
    = Inr (df\<lparr>rows := concat (map (\<lambda>m. filter (\<lambda>r. month_matches r m) (rows df)) (picks month))\<rparr>)"
proof (cases month)
  case (Str m)
  then show ?thesis using assms by (simp add: filter_month_def canonical_def select_month_ok picks_def)
next
  case (StrList ms)
  with assms have ms: "ms \<noteq> []" "set ms \<subseteq> set months" by (auto simp: canonical_def)
  have "sequence (map (select_month df) ms)
      = Inr (map (\<lambda>m. df\<lparr>rows := filter (\<lambda>r. month_matches r m) (rows df)\<rparr>) ms)"
    using ms assms(1) by (intro sequence_map_Inr select_month_ok) auto
  then show ?thesis using StrList ms
    by (simp add: filter_month_def pd_concat_selections picks_def)
qed

lemma filter_day_ok:
  assumes "''Weekday'' \<in> set (columns df)" "canonical weekdays day"
  shows "filter_day df day
    = Inr (df\<lparr>rows := concat (map (\<lambda>d. filter (\<lambda>r. day_matches r d) (rows df)) (picks day))\<rparr>)"
proof (cases day)
  case (Str d)
  then show ?thesis using assms by (simp add: filter_day_def select_day_ok picks_def)
next
  case (StrList ds)
  with assms have ds: "ds \<noteq> []" by (auto simp: canonical_def)
  have "sequence (map (select_day df) ds)
      = Inr (map (\<lambda>d. df\<lparr>rows := filter (\<lambda>r. day_matches r d) (rows df)\<rparr>) ds)"
    using assms(1) by (intro sequence_map_Inr select_day_ok) auto
  then show ?thesis using StrList ds
    by (simp add: filter_day_def pd_concat_selections picks_def)
qed

lemma filter_step_ok:
  assumes "''Month'' \<in> set (columns df)" "''Weekday'' \<in> set (columns df)"
    "canonical months month" "canonical weekdays day"
  shows "filter_step df month day
    = Inr (df\<lparr>rows := concat (map (\<lambda>d. filter (\<lambda>r. day_matches r d)
         (concat (map (\<lambda>m. filter (\<lambda>r. month_matches r m) (rows df)) (picks month)))) (picks day))\<rparr>)"
  using assms by (simp add: filter_step_def filter_month_ok filter_day_ok)


lemma mset_filter_disjoint_union:
  "(\<And>x. x \<in> set xs \<Longrightarrow> \<not> (A x \<and> B x))
    \<Longrightarrow> mset (filter A xs) + mset (filter B xs) = mset (filter (\<lambda>x. A x \<or> B x) xs)"
  by (induction xs) auto

lemma mset_concat_filter:
  assumes "distinct ms"
    and "\<And>m m' x. m \<in> set ms \<Longrightarrow> m' \<in> set ms \<Longrightarrow> x \<in> set xs \<Longrightarrow> P x m \<Longrightarrow> P x m' \<Longrightarrow> m = m'"
  shows "mset (concat (map (\<lambda>m. filter (\<lambda>x. P x m) xs) ms)) = mset (filter (\<lambda>x. \<exists>m \<in> set ms. P x m) xs)"
  using assms
proof (induction ms)
  case Nil
  then show ?case by simp
next
  case (Cons m ms)
  have IH: "mset (concat (map (\<lambda>m. filter (\<lambda>x. P x m) xs) ms)) = mset (filter (\<lambda>x. \<exists>m \<in> set ms. P x m) xs)"
    using Cons.prems by (intro Cons.IH) auto
  have disj: "\<not> (P x m \<and> (\<exists>m' \<in> set ms. P x m'))" if "x \<in> set xs" for x
    using Cons.prems(1) Cons.prems(2)[of m _ x] that by auto
  have "mset (filter (\<lambda>x. P x m) xs) + mset (filter (\<lambda>x. \<exists>m \<in> set ms. P x m) xs)
      = mset (filter (\<lambda>x. P x m \<or> (\<exists>m \<in> set ms. P x m)) xs)"
    using disj by (intro mset_filter_disjoint_union) blast
  then show ?case using IH by simp
qed

lemma index_inj: "index xs a = Inr i \<Longrightarrow> index xs b = Inr i \<Longrightarrow> a = b"
  by (induction xs arbitrary: i) (auto split: if_splits sum.splits)

lemma eq_int_inj: "eq_int v a \<Longrightarrow> eq_int v b \<Longrightarrow> a = b"
  by (cases v) auto

lemma month_matches_inj:
  assumes "month_matches r m" "month_matches r m'"
  shows "m = m'"
proof -
  from assms(1) obtain i where i: "index months m = Inr i" "eq_int (cell_of r ''Month'') (int i + 1)"
    by (auto simp: month_matches_def split: sum.splits)
  from assms(2) obtain j where j: "index months m' = Inr j" "eq_int (cell_of r ''Month'') (int j + 1)"
    by (auto simp: month_matches_def split: sum.splits)
  from eq_int_inj[OF i(2) j(2)] have "i = j" by simp
  with i(1) j(1) show ?thesis by (auto intro: index_inj)
qed

lemma title_weekdays:
  "map title weekdays =
     map Some [''Sunday'', ''Monday'', ''Tuesday'', ''Wednesday'', ''Thursday'', ''Friday'', ''Saturday'']"
  by (simp add: weekdays_def title_def title_char_def upper_char_def lower_char_def is_cased_def
      upper_letters_def lower_letters_def)

lemma title_weekdays_inj:
  assumes "d \<in> set weekdays" "d' \<in> set weekdays" "title d = title d'"
  shows "d = d'"
proof -
  have "distinct (map title weekdays)"
    unfolding title_weekdays by simp
  then have "inj_on title (set weekdays)"
    by (simp add: distinct_map)
  then show ?thesis using assms by (auto dest: inj_onD)
qed

lemma day_matches_inj:
  assumes "d \<in> set weekdays" "d' \<in> set weekdays" "day_matches r d" "day_matches r d'"
  shows "d = d'"
proof -
  from assms(3,4) have "title d = title d'"
    unfolding day_matches_def
    by (cases "cell_of r ''Weekday''"; cases "title d"; cases "title d'") auto
  with assms(1,2) show ?thesis by (rule title_weekdays_inj)
qed

lemma canonical_picks:
  "canonical valid c \<Longrightarrow> distinct (picks c) \<and> set (picks c) \<subseteq> set valid \<and> picks c \<noteq> [] \<and> set (picks c) = selected c"
  by (cases c) (auto simp: canonical_def picks_def selected_def)

lemma selection_mset:
  assumes "canonical months month" and "canonical weekdays day"
  shows "mset (selection month day xs) = mset (filter (keeps month day) xs)"
proof -
  let ?ms = "picks month" and ?ds = "picks day"
  let ?A = "concat (map (\<lambda>m. filter (\<lambda>r. month_matches r m) xs) ?ms)"
  have pm: "distinct ?ms" "set ?ms = selected month"
    and pd: "distinct ?ds" "set ?ds \<subseteq> set weekdays" "set ?ds = selected day"
    using canonical_picks[OF assms(1)] canonical_picks[OF assms(2)] by auto
  have A: "mset ?A = mset (filter (\<lambda>r. \<exists>m \<in> set ?ms. month_matches r m) xs)"
    using pm(1) by (intro mset_concat_filter) (auto intro: month_matches_inj)
  have "mset (selection month day xs) = mset (filter (\<lambda>r. \<exists>d \<in> set ?ds. day_matches r d) ?A)"
    unfolding selection_def
    using pd(1,2) by (intro mset_concat_filter) (auto intro: day_matches_inj)
  also have "\<dots> = filter_mset (\<lambda>r. \<exists>d \<in> set ?ds. day_matches r d) (mset ?A)"
    by simp
  also have "\<dots> = mset (filter (\<lambda>r. (\<exists>m \<in> set ?ms. month_matches r m) \<and>
                      (\<exists>d \<in> set ?ds. day_matches r d)) xs)"
    unfolding A by (simp add: filter_filter_mset conj_commute)
  finally show ?thesis
    by (simp add: pm pd keeps_def)
qed

lemma filter_step_selection:
  assumes "''Month'' \<in> set (columns df)" "''Weekday'' \<in> set (columns df)"
    "canonical months month" "canonical weekdays day"
  shows "filter_step df month day = Inr (df\<lparr>rows := selection month day (rows df)\<rparr>)"
  using filter_step_ok[OF assms] by (simp add: selection_def)

text \<open>
  Claim C1.  For a table that has the derived columns, a month selector and a weekday
  selector that are one canonical name or a non-empty list of distinct canonical names,
  the filter step of \<open>load_data\<close> does not raise, keeps the columns, and returns exactly
  the rows whose month number is \<open>months.index(m) + 1\<close> for a selected \<open>m\<close> and whose
  weekday name is \<open>d.title()\<close> for a selected \<open>d\<close>, each as often as the table holds it;
  when no row matches, the result has no rows.
\<close>

theorem filter_step_exact:
  assumes "''Month'' \<in> set (columns df)" and "''Weekday'' \<in> set (columns df)"
    and "canonical months month" and "canonical weekdays day"
  shows "\<exists>out. filter_step df month day = Inr out \<and> columns out = columns df \<and>
           mset (rows out) =
             mset (filter (\<lambda>r. (\<exists>m \<in> selected month. month_matches r m) \<and>
                                (\<exists>d \<in> selected day. day_matches r d)) (rows df)) \<and>
           ((\<forall>r \<in> set (rows df). \<not> ((\<exists>m \<in> selected month. month_matches r m) \<and>
                                (\<exists>d \<in> selected day. day_matches r d))) \<longrightarrow> rows out = [])"
proof -
  let ?R = "selection month day (rows df)"
  let ?P = "\<lambda>r. (\<exists>m \<in> selected month. month_matches r m) \<and> (\<exists>d \<in> selected day. day_matches r d)"
  have P: "keeps month day = ?P"
    by (rule ext) (simp add: keeps_def)
  have R: "mset ?R = mset (filter ?P (rows df))"
    using selection_mset[OF assms(3,4), of "rows df"] unfolding P .
  have E: "?R = []" if "\<forall>r \<in> set (rows df). \<not> ?P r"
  proof -
    have "filter ?P (rows df) = []"
      using that by (simp add: filter_empty_conv)
    with R have "mset ?R = {#}" by simp
    then show ?thesis by (simp only: mset_zero_iff)
  qed
  show ?thesis
    using filter_step_selection[OF assms] R E by simp
qed

lemmas string_evals = lower_def strip_def title_def title_char_def lower_char_def upper_char_def
  is_cased_def is_space_def upper_letters_def lower_letters_def

theorem filter_step_exact_witness:
  "canonical months (StrList [''february'', ''january'']) \<and>
   canonical weekdays (Str ''monday'') \<and>
   (\<exists>out. filter_step
      \<lparr>columns = [''Month'', ''Weekday''],
       rows = [[(''Month'', IntC 1), (''Weekday'', StrC ''Monday'')],
               [(''Month'', IntC 2), (''Weekday'', StrC ''Sunday'')],
               [(''Month'', IntC 3), (''Weekday'', StrC ''Monday'')]]\<rparr>
      (StrList [''february'', ''january'']) (Str ''monday'') = Inr out \<and>
      rows out = [[(''Month'', IntC 1), (''Weekday'', StrC ''Monday'')]])"
proof -
  let ?df = "\<lparr>columns = [''Month'', ''Weekday''],
       rows = [[(''Month'', IntC 1), (''Weekday'', StrC ''Monday'')],
               [(''Month'', IntC 2), (''Weekday'', StrC ''Sunday'')],
               [(''Month'', IntC 3), (''Weekday'', StrC ''Monday'')]]\<rparr>"
  have m: "canonical months (StrList [''february'', ''january''])"
    by (simp add: canonical_def months_def)
  have d: "canonical weekdays (Str ''monday'')"
    by (simp add: canonical_def weekdays_def)
  have c: "''Month'' \<in> set (columns ?df)" "''Weekday'' \<in> set (columns ?df)"
    by simp_all
  from filter_step_exact[OF c m d] obtain out where
    out: "filter_step ?df (StrList [''february'', ''january'']) (Str ''monday'') = Inr out"
    and rs: "mset (rows out) =
             mset (filter (\<lambda>r. (\<exists>m \<in> selected (StrList [''february'', ''january'']). month_matches r m) \<and>
                                (\<exists>d \<in> selected (Str ''monday''). day_matches r d)) (rows ?df))"
    by blast
  have "mset (rows out) = {#[(''Month'', IntC 1), (''Weekday'', StrC ''Monday'')]#}"
    unfolding rs
    by (simp add: selected_def month_matches_def day_matches_def months_def cell_of_def string_evals)
  then have "rows out = [[(''Month'', IntC 1), (''Weekday'', StrC ''Monday'')]]"
    by (metis mset_single_iff_right mset.simps(2) mset.simps(1) add_mset_eq_single mset_eq_setD)
  with m d out show ?thesis by blast
qed

subsection \<open>Filtering twice, and filtering by everything\<close>







lemma sequence_length: "sequence xs = Inr ys \<Longrightarrow> length ys = length xs"
  by (induction xs arbitrary: ys) (auto split: sum.splits)

lemma cell_of_update:
  "cell_of (AList.update k v r) k' = (if k = k' then v else cell_of r k')"
  by (simp add: cell_of_def update_conv')







lemma add_time_columns_columns:
  assumes "add_time_columns w raw = Inr df"
  shows "''Month'' \<in> set (columns df)" and "''Weekday'' \<in> set (columns df)"
  using assms
  by (auto simp: add_time_columns_def Let_def setitem_def split: sum.splits)








section \<open>Prompting\<close>

lemma get_user_choice_sentinel:
  "strip (lower line) = ''end'' \<Longrightarrow> get_user_choice valid (line # rest) = Inl SystemExit"
  by simp

lemma get_user_choice_rejected:
  "rejected valid line \<Longrightarrow> get_user_choice valid (line # rest) = get_user_choice valid rest"
  by (auto simp: rejected_def Let_def)

lemma get_user_choice_retry:
  "\<forall>l \<in> set bad. rejected valid l \<Longrightarrow> get_user_choice valid (bad @ rest) = get_user_choice valid rest"
  by (induction bad) (simp_all add: get_user_choice_rejected del: get_user_choice.simps)

text \<open>
  Claim C3, amended.  For every valid-choice list and every input line that does not
  lower-case and trim to the sentinel \<open>end\<close>: an input without a comma is accepted iff
  it is in the valid list, and is returned as it is after lower-casing and trimming; an
  input with a comma is split on commas, each token trimmed and lower-cased, and the
  token list is returned iff every token is in the valid list; otherwise the line is
  rejected and the next line is read.  Any number of rejected lines may come first.
\<close>

theorem get_user_choice_parse:
  assumes "strip (lower line) \<noteq> ''end''"
  shows "get_user_choice valid (line # rest) =
           (if CHR '','' \<notin> set (strip (lower line)) then
              (if strip (lower line) \<in> set valid then Inr (Str (strip (lower line)), rest)
               else get_user_choice valid rest)
            else
              (if set (map (\<lambda>i. lower (strip i)) (split (CHR '','') (strip (lower line))))
                    \<subseteq> set valid
               then Inr (StrList (map (\<lambda>i. lower (strip i))
                      (split (CHR '','') (strip (lower line)))), rest)
               else get_user_choice valid rest)) \<and>
         ((\<forall>l \<in> set bad. rejected valid l) \<longrightarrow>
           get_user_choice valid (bad @ line # rest) = get_user_choice valid (line # rest))"
proof
  show "get_user_choice valid (line # rest) =
           (if CHR '','' \<notin> set (strip (lower line)) then
              (if strip (lower line) \<in> set valid then Inr (Str (strip (lower line)), rest)
               else get_user_choice valid rest)
            else
              (if set (map (\<lambda>i. lower (strip i)) (split (CHR '','') (strip (lower line))))
                    \<subseteq> set valid
               then Inr (StrList (map (\<lambda>i. lower (strip i))
                      (split (CHR '','') (strip (lower line)))), rest)
               else get_user_choice valid rest))"
    using assms by (simp add: Let_def subset_iff image_iff Bex_def) blast
  show "(\<forall>l \<in> set bad. rejected valid l) \<longrightarrow>
           get_user_choice valid (bad @ line # rest) = get_user_choice valid (line # rest)"
    using get_user_choice_retry[of bad valid "line # rest"] by blast
qed

theorem get_user_choice_parse_witness:
  "strip (lower '' January , MAY'') \<noteq> ''end'' \<and>
   rejected months ''july'' \<and> rejected months ''may,july'' \<and>
   get_user_choice months [''july'', ''may,july'', '' January , MAY'', ''x'']
     = Inr (StrList [''january'', ''may''], [''x'']) \<and>
   get_user_choice months [''july'', (CHR 0xA0 # ''May ''), ''x''] = Inr (Str ''may'', [''x''])"
proof -
  have a: "strip (lower '' January , MAY'') \<noteq> ''end''"
    by (simp add: string_evals)
  have b: "\<forall>l \<in> set [''july'', ''may,july'']. rejected months l"
    by (simp add: rejected_def months_def string_evals)
  have c: "strip (lower (CHR 0xA0 # ''May '')) \<noteq> ''end''"
    by (simp add: string_evals)
  have d: "\<forall>l \<in> set [''july'']. rejected months l"
    by (simp add: rejected_def months_def string_evals)
  have "get_user_choice months ([''july'', ''may,july''] @ '' January , MAY'' # [''x''])
      = Inr (StrList [''january'', ''may''], [''x''])"
    using get_user_choice_parse[OF a, of months "[''x'']" "[''july'', ''may,july'']"] b
    by (simp add: months_def string_evals del: get_user_choice.simps)
  moreover have "get_user_choice months ([''july''] @ (CHR 0xA0 # ''May '') # [''x'']) = Inr (Str ''may'', [''x''])"
    using get_user_choice_parse[OF c, of months "[''x'']" "[''july'']"] d
    by (simp add: months_def string_evals del: get_user_choice.simps)
  ultimately show ?thesis using a b by simp
qed

text \<open>The claim as stated fails at the sentinel: \<open>end\<close> is outside the valid list
  \<open>['y', 'n']\<close>, yet the line is not rejected and the next line is not read; and \<open>end\<close>
  is not accepted even when the valid list holds it.\<close>

theorem get_user_choice_sentinel_counterexample:
  "''end'' \<notin> set [''y'', ''n''] \<and>
   get_user_choice [''y'', ''n''] [''end'', ''y''] \<noteq> get_user_choice [''y'', ''n''] [''y''] \<and>
   ''end'' \<in> set [''end''] \<and>
   get_user_choice [''end''] [''end''] \<noteq> Inr (Str ''end'', [])"
  by (simp add: string_evals)

section \<open>Browsing the raw data\<close>

lemma get_user_choice_yes:
  "get_user_choice [''y'', ''n''] (''y'' # rest) = Inr (Str ''y'', rest)"
  by (simp add: string_evals)

lemma concat_pages:
  "concat (map (\<lambda>j. take n (drop (i + n * j) xs)) [0..<m]) = take (n * m) (drop i xs)"
proof (induction m)
  case 0
  then show ?case by simp
next
  case (Suc m)
  have "concat (map (\<lambda>j. take n (drop (i + n * j) xs)) [0..<Suc m])
      = concat (map (\<lambda>j. take n (drop (i + n * j) xs)) [0..<m]) @ take n (drop (i + n * m) xs)"
    by simp
  also have "\<dots> = take (n * m) (drop i xs) @ take n (drop (n * m) (drop i xs))"
    unfolding Suc.IH by (simp add: add.commute)
  also have "\<dots> = take (n * m + n) (drop i xs)"
    by (rule take_add[symmetric])
  finally show ?case by (simp add: add.commute)
qed

lemma raw_data_loop_all_yes:
  assumes "length (rows df) \<le> i + 5 * (k + 1)" and "k > 0 \<longrightarrow> i + 5 * k < length (rows df)"
  shows "raw_data_loop df i (replicate k ''y'' @ rest) shown =
           Inr (i + 5 * (k + 1), rest,
                shown @ map (\<lambda>j. Page (take 5 (drop (i + 5 * j) (rows df)))) [0..<k + 1]
                  @ [Text ''No more data to display.''])"
  using assms
proof (induction k arbitrary: i shown)
  case 0
  then show ?case
    by (subst raw_data_loop.simps) (simp add: Let_def)
next
  case (Suc k)
  from Suc.prems have less: "\<not> length (rows df) \<le> i + 5" by simp
  have IH: "raw_data_loop df (i + 5) (replicate k ''y'' @ rest) (shown @ [Page (take 5 (drop i (rows df)))]) =
           Inr (i + 5 + 5 * (k + 1), rest,
                (shown @ [Page (take 5 (drop i (rows df)))])
                  @ map (\<lambda>j. Page (take 5 (drop (i + 5 + 5 * j) (rows df)))) [0..<k + 1]
                  @ [Text ''No more data to display.''])"
    using Suc.prems by (intro Suc.IH) auto
  have shift: "map (\<lambda>j. Page (take 5 (drop (i + 5 * j) (rows df)))) [0..<Suc k + 1]
      = Page (take 5 (drop i (rows df))) # map (\<lambda>j. Page (take 5 (drop (i + 5 + 5 * j) (rows df)))) [0..<k + 1]"
    by (simp add: upt_conv_Cons map_Suc_upt[symmetric] add.assoc del: upt_Suc)
  have "raw_data_loop df i (replicate (Suc k) ''y'' @ rest) shown
      = raw_data_loop df (i + 5) (replicate k ''y'' @ rest) (shown @ [Page (take 5 (drop i (rows df)))])"
    using less
    by (subst raw_data_loop.simps) (simp add: Let_def get_user_choice_yes del: get_user_choice.simps)
  then show ?case
    unfolding IH shift by (simp add: add.assoc)
qed

lemma raw_data_loop_signal:
  "raw_data_loop df i inp shown = Inr (j, rest, shown') \<Longrightarrow>
     Text ''No more data to display.'' \<notin> set shown \<Longrightarrow>
     (Text ''No more data to display.'' \<in> set shown' \<longleftrightarrow> length (rows df) \<le> j)"
proof (induction df i inp shown rule: raw_data_loop.induct)
  case (1 df start_index inp shown)
  show ?case
  proof (cases "length (rows df) \<le> start_index + 5")
    case True
    with "1.prems" show ?thesis
      by (subst (asm) raw_data_loop.simps) (auto simp: Let_def)
  next
    case False
    from "1.prems"(1) False obtain answer inp' where
      g: "get_user_choice [''y'', ''n''] inp = Inr (answer, inp')"
      and r: "(if answer = Str ''n''
            then Inr (start_index + 5, inp', shown @ [Page (take 5 (drop start_index (rows df)))])
            else raw_data_loop df (start_index + 5) inp' (shown @ [Page (take 5 (drop start_index (rows df)))]))
           = Inr (j, rest, shown')"
      by (subst (asm) raw_data_loop.simps) (auto simp: Let_def split: sum.splits)
    show ?thesis
    proof (cases "answer = Str ''n''")
      case True
      with r False "1.prems"(2) show ?thesis by auto
    next
      case no: False
      with r have "raw_data_loop df (start_index + 5) inp' (shown @ [Page (take 5 (drop start_index (rows df)))])
           = Inr (j, rest, shown')" by simp
      moreover have "Text ''No more data to display.'' \<notin> set (shown @ [Page (take 5 (drop start_index (rows df)))])"
        using "1.prems"(2) by simp
      ultimately show ?thesis
        using "1.IH"[OF refl refl False g refl no] by simp
    qed
  qed
qed


lemma display_raw_data_signal:
  assumes "display_raw_data df i inp = Inr (j, rest, shown)"
  shows "Text ''No more data to display.'' \<in> set shown \<longleftrightarrow> length (rows df) \<le> j"
proof -
  from assms obtain i' inp' where "raw_data_loop df i' inp' [] = Inr (j, rest, shown)"
    by (auto simp: display_raw_data_def split: if_splits sum.splits)
  then show ?thesis by (rule raw_data_loop_signal) simp
qed

lemma get_user_choice_no:
  "get_user_choice [''y'', ''n''] (''n'' # rest) = Inr (Str ''n'', rest)"
  by (simp add: string_evals)

lemma raw_data_loop_yes_then_no:
  assumes "i + 5 * (m + 1) < length (rows df)"
  shows "raw_data_loop df i (replicate m ''y'' @ ''n'' # rest) shown =
           Inr (i + 5 * (m + 1), rest,
                shown @ map (\<lambda>j. Page (take 5 (drop (i + 5 * j) (rows df)))) [0..<m + 1])"
  using assms
proof (induction m arbitrary: i shown)
  case 0
  then show ?case
    by (subst raw_data_loop.simps)
      (simp add: Let_def get_user_choice_no del: get_user_choice.simps)
next
  case (Suc m)
  from Suc.prems have less: "\<not> length (rows df) \<le> i + 5" by simp
  have IH: "raw_data_loop df (i + 5) (replicate m ''y'' @ ''n'' # rest)
              (shown @ [Page (take 5 (drop i (rows df)))]) =
           Inr (i + 5 + 5 * (m + 1), rest,
                (shown @ [Page (take 5 (drop i (rows df)))])
                  @ map (\<lambda>j. Page (take 5 (drop (i + 5 + 5 * j) (rows df)))) [0..<m + 1])"
    using Suc.prems by (intro Suc.IH) auto
  have shift: "map (\<lambda>j. Page (take 5 (drop (i + 5 * j) (rows df)))) [0..<Suc m + 1]
      = Page (take 5 (drop i (rows df)))
          # map (\<lambda>j. Page (take 5 (drop (i + 5 + 5 * j) (rows df)))) [0..<m + 1]"
    by (simp add: upt_conv_Cons map_Suc_upt[symmetric] add.assoc del: upt_Suc)
  have "raw_data_loop df i (replicate (Suc m) ''y'' @ ''n'' # rest) shown
      = raw_data_loop df (i + 5) (replicate m ''y'' @ ''n'' # rest)
          (shown @ [Page (take 5 (drop i (rows df)))])"
    using less
    by (subst raw_data_loop.simps) (simp add: Let_def get_user_choice_yes del: get_user_choice.simps)
  then show ?case
    unfolding IH shift by (simp add: add.assoc)
qed

text \<open>
  Claim C6.  Every view prints one page, the at most 5 consecutive rows from the
  cursor on, and advances the cursor by 5.  Browsing from cursor 0 and answering \<open>y\<close> to
  every ``more?'' prompt shows the pages \<open>rows[0:5]\<close>, \<open>rows[5:10]\<close>, ..., which together
  are all the rows, each once and in order; the cursor returned is 5 times the number
  of pages, and ``No more data'' is printed last.  Answering \<open>n\<close> after some pages
  returns the cursor behind them, and browsing again from that cursor, confirmed with
  \<open>y\<close>, goes on with the next page.  In any call, ``No more data'' is printed iff the
  advanced cursor that is returned has reached the length of the table.  For the empty
  table the first view prints it at once, reading no input.
\<close>

theorem display_raw_data_pages:
  "(\<exists>pages.
      display_raw_data df 0 (replicate ((length (rows df) - 1) div 5) ''y'' @ rest) =
        Inr (5 * ((length (rows df) - 1) div 5 + 1), rest,
             map Page pages @ [Text ''No more data to display.'']) \<and>
      pages = map (\<lambda>n. take 5 (drop (5 * n) (rows df))) [0..<(length (rows df) - 1) div 5 + 1] \<and>
      concat pages = rows df \<and> (\<forall>p \<in> set pages. length p \<le> 5)) \<and>
   (5 * (m + 1) < length (rows df) \<longrightarrow>
      display_raw_data df 0 (replicate m ''y'' @ ''n'' # rest) =
        Inr (5 * (m + 1), rest,
             map (\<lambda>n. Page (take 5 (drop (5 * n) (rows df)))) [0..<m + 1])) \<and>
   (0 < i \<and> length (rows df) \<le> i + 5 * (k + 1) \<and> (0 < k \<longrightarrow> i + 5 * k < length (rows df)) \<longrightarrow>
      display_raw_data df i (''y'' # replicate k ''y'' @ rest) =
        Inr (i + 5 * (k + 1), rest,
             map (\<lambda>n. Page (take 5 (drop (i + 5 * n) (rows df)))) [0..<k + 1]
               @ [Text ''No more data to display.''])) \<and>
   (\<forall>i inp j rest' shown. display_raw_data df i inp = Inr (j, rest', shown) \<longrightarrow>
      (Text ''No more data to display.'' \<in> set shown \<longleftrightarrow> length (rows df) \<le> j)) \<and>
   (rows df = [] \<longrightarrow>
      display_raw_data df 0 inp = Inr (5, inp, [Page [], Text ''No more data to display.'']))"
proof (intro conjI)
  let ?N = "length (rows df)"
  let ?k = "(?N - 1) div 5"
  let ?pages = "map (\<lambda>n. take 5 (drop (5 * n) (rows df))) [0..<?k + 1]"
  have le: "?N \<le> 0 + 5 * (?k + 1)" by simp
  have gt: "?k > 0 \<longrightarrow> 0 + 5 * ?k < ?N" by auto
  have run: "display_raw_data df 0 (replicate ?k ''y'' @ rest) =
        Inr (5 * (?k + 1), rest, map Page ?pages @ [Text ''No more data to display.''])"
    unfolding display_raw_data_def
    using raw_data_loop_all_yes[OF le gt, of rest "[]"] by (simp add: comp_def)
  have "concat ?pages = take (5 * (?k + 1)) (drop 0 (rows df))"
    using concat_pages[of 5 0 "rows df" "?k + 1"] by simp
  with le have all: "concat ?pages = rows df" by simp
  have short: "\<forall>p \<in> set ?pages. length p \<le> 5" by auto
  from run all short
  show "\<exists>pages.
      display_raw_data df 0 (replicate ?k ''y'' @ rest) =
        Inr (5 * (?k + 1), rest, map Page pages @ [Text ''No more data to display.'']) \<and>
      pages = ?pages \<and> concat pages = rows df \<and> (\<forall>p \<in> set pages. length p \<le> 5)"
    by blast
  show "5 * (m + 1) < length (rows df) \<longrightarrow>
      display_raw_data df 0 (replicate m ''y'' @ ''n'' # rest) =
        Inr (5 * (m + 1), rest,
             map (\<lambda>n. Page (take 5 (drop (5 * n) (rows df)))) [0..<m + 1])"
  proof
    assume "5 * (m + 1) < length (rows df)"
    then have "0 + 5 * (m + 1) < length (rows df)" by simp
    from raw_data_loop_yes_then_no[OF this, of rest "[]"]
    show "display_raw_data df 0 (replicate m ''y'' @ ''n'' # rest) =
        Inr (5 * (m + 1), rest,
             map (\<lambda>n. Page (take 5 (drop (5 * n) (rows df)))) [0..<m + 1])"
      by (simp add: display_raw_data_def del: upt_Suc)
  qed
  show "0 < i \<and> length (rows df) \<le> i + 5 * (k + 1) \<and> (0 < k \<longrightarrow> i + 5 * k < length (rows df)) \<longrightarrow>
      display_raw_data df i (''y'' # replicate k ''y'' @ rest) =
        Inr (i + 5 * (k + 1), rest,
             map (\<lambda>n. Page (take 5 (drop (i + 5 * n) (rows df)))) [0..<k + 1]
               @ [Text ''No more data to display.''])"
  proof (intro impI, elim conjE)
    assume i: "0 < i" and le: "length (rows df) \<le> i + 5 * (k + 1)"
      and gt: "0 < k \<longrightarrow> i + 5 * k < length (rows df)"
    from i have "display_raw_data df i (''y'' # replicate k ''y'' @ rest)
        = raw_data_loop df i (replicate k ''y'' @ rest) []"
      by (simp add: display_raw_data_def get_user_choice_yes del: get_user_choice.simps)
    also have "\<dots> = Inr (i + 5 * (k + 1), rest,
             [] @ map (\<lambda>n. Page (take 5 (drop (i + 5 * n) (rows df)))) [0..<k + 1]
               @ [Text ''No more data to display.''])"
      using le gt by (rule raw_data_loop_all_yes)
    finally show "display_raw_data df i (''y'' # replicate k ''y'' @ rest) =
        Inr (i + 5 * (k + 1), rest,
             map (\<lambda>n. Page (take 5 (drop (i + 5 * n) (rows df)))) [0..<k + 1]
               @ [Text ''No more data to display.''])"
      by (simp only: append_Nil)
  qed
  show "\<forall>i inp j rest' shown. display_raw_data df i inp = Inr (j, rest', shown) \<longrightarrow>
      (Text ''No more data to display.'' \<in> set shown \<longleftrightarrow> length (rows df) \<le> j)"
    using display_raw_data_signal by blast
  show "rows df = [] \<longrightarrow>
      display_raw_data df 0 inp = Inr (5, inp, [Page [], Text ''No more data to display.''])"
    by (simp add: display_raw_data_def raw_data_loop.simps)
qed

theorem display_raw_data_pages_witness:
  "display_raw_data
     \<lparr>columns = [''Trip Duration''],
      rows = map (\<lambda>n. [(''Trip Duration'', IntC n)]) [10, 20, 30, 40, 50, 60, 70]\<rparr>
     0 [''y'', ''r'']
   = Inr (10, [''r''],
          [Page (map (\<lambda>n. [(''Trip Duration'', IntC n)]) [10, 20, 30, 40, 50]),
           Page (map (\<lambda>n. [(''Trip Duration'', IntC n)]) [60, 70]),
           Text ''No more data to display.'']) \<and>
   display_raw_data
     \<lparr>columns = [''Trip Duration''],
      rows = map (\<lambda>n. [(''Trip Duration'', IntC n)]) [10, 20, 30, 40, 50, 60, 70]\<rparr>
     0 [''n'', ''r'']
   = Inr (5, [''r''], [Page (map (\<lambda>n. [(''Trip Duration'', IntC n)]) [10, 20, 30, 40, 50])]) \<and>
   display_raw_data
     \<lparr>columns = [''Trip Duration''],
      rows = map (\<lambda>n. [(''Trip Duration'', IntC n)]) [10, 20, 30, 40, 50, 60, 70]\<rparr>
     5 [''y'', ''r'']
   = Inr (10, [''r''],
          [Page (map (\<lambda>n. [(''Trip Duration'', IntC n)]) [60, 70]),
           Text ''No more data to display.'']) \<and>
   display_raw_data \<lparr>columns = [''Trip Duration''], rows = []\<rparr> 0 [''r'']
   = Inr (5, [''r''], [Page [], Text ''No more data to display.''])"
proof -
  let ?df = "\<lparr>columns = [''Trip Duration''],
      rows = map (\<lambda>n. [(''Trip Duration'', IntC n)]) [10, 20, 30, 40, 50, 60, 70]\<rparr>"
  let ?e = "\<lparr>columns = [''Trip Duration''], rows = []\<rparr> :: dataframe"
  note t = display_raw_data_pages[of ?df "[''r'']" 0 5 0 "[]"]
  have k: "(length (rows ?df) - 1) div 5 = 1" by simp
  from t obtain pages where
    "display_raw_data ?df 0 (replicate ((length (rows ?df) - 1) div 5) ''y'' @ [''r'']) =
        Inr (5 * ((length (rows ?df) - 1) div 5 + 1), [''r''],
             map Page pages @ [Text ''No more data to display.''])"
    "pages = map (\<lambda>n. take 5 (drop (5 * n) (rows ?df))) [0..<(length (rows ?df) - 1) div 5 + 1]"
    by blast
  then have 1: "display_raw_data ?df 0 [''y'', ''r'']
   = Inr (10, [''r''],
          [Page (map (\<lambda>n. [(''Trip Duration'', IntC n)]) [10, 20, 30, 40, 50]),
           Page (map (\<lambda>n. [(''Trip Duration'', IntC n)]) [60, 70]),
           Text ''No more data to display.''])"
    unfolding k by (simp add: upt_rec[of 0] numeral_2_eq_2)
  have "5 * (0 + 1) < length (rows ?df)" by simp
  with t have 2: "display_raw_data ?df 0 [''n'', ''r'']
      = Inr (5, [''r''], [Page (map (\<lambda>n. [(''Trip Duration'', IntC n)]) [10, 20, 30, 40, 50])])"
    by simp
  have "0 < (5::nat) \<and> length (rows ?df) \<le> 5 + 5 * (0 + 1)
      \<and> (0 < (0::nat) \<longrightarrow> 5 + 5 * 0 < length (rows ?df))" by simp
  with t have 3: "display_raw_data ?df 5 [''y'', ''r'']
   = Inr (10, [''r''],
          [Page (map (\<lambda>n. [(''Trip Duration'', IntC n)]) [60, 70]),
           Text ''No more data to display.''])"
    by simp
  have "rows ?e = []" by simp
  with display_raw_data_pages[of ?e "[]" 0 0 0 "[''r'']"]
  have 4: "display_raw_data ?e 0 [''r''] = Inr (5, [''r''], [Page [], Text ''No more data to display.''])"
    by blast
  from 1 2 3 4 show ?thesis by simp
qed

section \<open>Trip durations as text\<close>

lemma int_mean_125_126: "int_mean [125, 126] = Exact (251 / 2)"
  by (simp add: int_mean_def exact64_def)

text \<open>
  Claim C5, amended.  A total of 90061 integer seconds is printed as \<open>1d 1h 1m 1s\<close>, by
  integer floor division.  A mean of 125.5 seconds is printed as \<open>2.0m 5.5s\<close>: the mean
  is not rounded to an integer before it is split, the fractional seconds are kept,
  and the minutes, the result of \<open>//\<close> on a float, are printed as the float \<open>2.0\<close>.
\<close>

theorem duration_formats:
  "total_duration_str 90061 = ''1d 1h 1m 1s'' \<and>
   printed (mean_duration_str (Exact (251 / 2))) = Text ''2.0m 5.5s''"
  by code_simp

theorem duration_formats_witness:
  "display_trip_duration_stats
     \<lparr>columns = [''Trip Duration''],
      rows = [[(''Trip Duration'', IntC 125)], [(''Trip Duration'', IntC 126)]]\<rparr>
   = Inr (\<lparr>columns = [''Trip Duration''],
           rows = [[(''Trip Duration'', IntC 125)], [(''Trip Duration'', IntC 126)]]\<rparr>,
          [Text ''Total travel time: 0d 0h 4m 11s.'', Text ''Average travel time: 2.0m 5.5s.''])"
proof -
  have t: "total_duration_str 251 = ''0d 0h 4m 11s''"
    by code_simp
  have m: "mean_duration_str (Exact (251 / 2)) = [Some ''2.0'', Some ''m '', Some ''5.5'', Some ''s'']"
    using duration_formats by code_simp
  show ?thesis
    by (simp add: display_trip_duration_stats_def getitem_def cell_of_def is_number_def is_int_def
        int_of_def in_int64_def wrap_int64_def int_mean_125_126 t m printed_def)
qed

text \<open>The claim as stated fails: the mean of 125.5 seconds is not printed as
  \<open>2m 5.5s\<close>.\<close>

theorem mean_duration_counterexample:
  "printed (mean_duration_str (Exact (251 / 2))) \<noteq> Text ''2m 5.5s''"
  by code_simp

section \<open>Exceptions that reach the top\<close>


lemma main_dispatch_fails:
  "get_filters inp = Inr ((city, month, day), rest) \<Longrightarrow> load_data w city month day = Inr df
     \<Longrightarrow> dispatch city df 0 rest = Inl e \<Longrightarrow> main w inp = Inl e"
  by (subst main.simps) simp

lemma get_user_choice_word:
  "strip (lower l) = s \<Longrightarrow> s \<noteq> ''end'' \<Longrightarrow> CHR '','' \<notin> set s \<Longrightarrow> s \<in> set valid
     \<Longrightarrow> get_user_choice valid (l # rest) = Inr (Str s, rest)"
  by simp

lemma mode_empty: "mode [] = []"
  by (simp add: mode_def dropna_def sort_cells_def)

lemma mode0_empty: "mode0 [] = Inl (KeyError ''0'')"
  by (simp add: mode0_def mode_empty)

lemma getitem_empty:
  "rows df = [] \<Longrightarrow> getitem df c = (if c \<in> set (columns df) then Inr [] else Inl (KeyError c))"
  by (simp add: getitem_def)

lemma time_stats_empty:
  "rows df = [] \<Longrightarrow> display_time_stats df =
     Inl (KeyError (if ''Month'' \<in> set (columns df) then ''0'' else ''Month''))"
  by (simp add: display_time_stats_def getitem_empty mode0_empty)

lemma station_stats_empty:
  "rows df = [] \<Longrightarrow> display_station_stats df =
     Inl (KeyError (if ''Start Station'' \<in> set (columns df) then ''0'' else ''Start Station''))"
  by (simp add: display_station_stats_def getitem_empty mode0_empty)

lemma dispatch_ts:
  "dispatch city df i (''ts'' # rest) =
     (case display_time_stats df of Inl e \<Rightarrow> Inl e | Inr (df', shown) \<Rightarrow> dispatch city df' i rest)"
  by (subst dispatch.simps) (simp add: string_evals)

lemma dispatch_ss:
  "dispatch city df i (''ss'' # rest) =
     (case display_station_stats df of Inl e \<Rightarrow> Inl e | Inr (df', shown) \<Rightarrow> dispatch city df' i rest)"
  by (subst dispatch.simps) (simp add: string_evals)

lemma dispatch_us:
  "dispatch city df i (''us'' # rest) =
     (case display_user_stats df city of Inl e \<Rightarrow> Inl e | Inr (df', shown) \<Rightarrow> dispatch city df' i rest)"
  by (subst dispatch.simps) (simp add: string_evals)

lemma sequence_list_all2:
  "sequence (map f xs) = Inr ys \<Longrightarrow> list_all2 (\<lambda>x y. f x = Inr y) xs ys"
  by (induction xs arbitrary: ys) (auto split: sum.splits)

lemma select_month_columns: "select_month df m = Inr out \<Longrightarrow> columns out = columns df"
  by (auto simp: select_month_def boolean_index_def split: sum.splits)

lemma select_day_columns: "select_day df d = Inr out \<Longrightarrow> columns out = columns df"
  by (auto simp: select_day_def boolean_index_def split: sum.splits)

lemma concat_selected_columns:
  assumes "sequence (map f xs) = Inr frames" and "pd_concat False frames = Inr out"
    and "\<And>x y. f x = Inr y \<Longrightarrow> columns y = cs"
  shows "columns out = cs"
proof -
  from assms(2) have ne: "frames \<noteq> []"
    and out: "columns out = combined_columns False (map columns frames)"
    by (auto simp: pd_concat_def split: if_splits)
  have "columns y = cs" if "y \<in> set frames" for y
  proof -
    from sequence_list_all2[OF assms(1)] that obtain x where "f x = Inr y"
      by (auto simp: list_all2_conv_all_nth in_set_conv_nth)
    then show ?thesis by (rule assms(3))
  qed
  with ne out show ?thesis by (simp add: combined_columns_same)
qed

lemma filter_month_columns: "filter_month df month = Inr out \<Longrightarrow> columns out = columns df"
  by (cases month)
    (auto simp: filter_month_def split: sum.splits
      intro: select_month_columns concat_selected_columns[where f = "select_month df"])

lemma filter_day_columns: "filter_day df day = Inr out \<Longrightarrow> columns out = columns df"
  by (cases day)
    (auto simp: filter_day_def split: sum.splits
      intro: select_day_columns concat_selected_columns[where f = "select_day df"])

lemma filter_step_columns: "filter_step df month day = Inr out \<Longrightarrow> columns out = columns df"
  by (auto simp: filter_step_def split: sum.splits dest!: filter_month_columns filter_day_columns)

lemma load_data_has_month:
  assumes "load_data w city month day = Inr df"
  shows "''Month'' \<in> set (columns df)"
proof -
  from assms obtain raw derived where "add_time_columns w raw = Inr derived"
    "filter_step derived month day = Inr df"
    by (auto simp: load_data_def split: sum.splits)
  then show ?thesis
    using add_time_columns_columns(1) filter_step_columns by metis
qed

text \<open>
  Claim C10.  On a table without rows the mode of every column is empty, so
  \<open>mode()[0]\<close> raises (pandas looks the label 0 up and raises \<open>KeyError: 0\<close>): the time
  statistics and the station statistics both end with that exception at their first
  \<open>mode()[0]\<close> (or with the \<open>KeyError\<close> of a missing column before it).  Nothing catches
  it: the menu choices \<open>ts\<close> and \<open>ss\<close> end the dispatch loop with it, and \<open>main\<close> ends with
  \<open>KeyError: 0\<close> when the loaded table has no rows and the first choice is \<open>ts\<close>.
\<close>

theorem empty_table_stats_raise:
  assumes "rows df = []"
  shows "mode0 [] = Inl (KeyError ''0'') \<and>
         display_time_stats df =
           Inl (KeyError (if ''Month'' \<in> set (columns df) then ''0'' else ''Month'')) \<and>
         display_station_stats df =
           Inl (KeyError (if ''Start Station'' \<in> set (columns df) then ''0'' else ''Start Station'')) \<and>
         dispatch city df i (''ts'' # rest) =
           Inl (KeyError (if ''Month'' \<in> set (columns df) then ''0'' else ''Month'')) \<and>
         dispatch city df i (''ss'' # rest) =
           Inl (KeyError (if ''Start Station'' \<in> set (columns df) then ''0'' else ''Start Station'')) \<and>
         (get_filters inp = Inr ((c, m, d), ''ts'' # rest) \<and> load_data w c m d = Inr df
            \<longrightarrow> main w inp = Inl (KeyError ''0''))"
proof -
  note t = time_stats_empty[OF assms] and s = station_stats_empty[OF assms]
  have "main w inp = Inl (KeyError ''0'')"
    if g: "get_filters inp = Inr ((c, m, d), ''ts'' # rest)" and l: "load_data w c m d = Inr df"
  proof -
    from l have "''Month'' \<in> set (columns df)" by (rule load_data_has_month)
    with t have "dispatch c df 0 (''ts'' # rest) = Inl (KeyError ''0'')"
      by (simp add: dispatch_ts)
    with g l show ?thesis by (rule main_dispatch_fails)
  qed
  with t s show ?thesis
    by (simp add: mode0_empty dispatch_ts dispatch_ss)
qed

theorem empty_table_stats_raise_witness:
  "load_data
     \<lparr>read_csv = files [(''chicago.csv'',
        \<lparr>columns = [''Start Time'', ''Start Station'', ''End Station''],
         rows = [[(''Start Time'', StrC ''2017-01-02 09:07:57''),
                  (''Start Station'', StrC ''Clark St''), (''End Station'', StrC ''Lake St'')]]\<rparr>)],
      to_datetime = [StrC ''2017-01-02 09:07:57'' \<mapsto> Timestamp 1 Monday 9]\<rparr>
     (Str ''chicago'') (Str ''june'') (Str ''sunday'')
   = Inr \<lparr>columns = [''Start Time'', ''Start Station'', ''End Station'', ''Month'', ''Weekday'',
                     ''Start Hour''],
          rows = []\<rparr> \<and>
   main
     \<lparr>read_csv = files [(''chicago.csv'',
        \<lparr>columns = [''Start Time'', ''Start Station'', ''End Station''],
         rows = [[(''Start Time'', StrC ''2017-01-02 09:07:57''),
                  (''Start Station'', StrC ''Clark St''), (''End Station'', StrC ''Lake St'')]]\<rparr>)],
      to_datetime = [StrC ''2017-01-02 09:07:57'' \<mapsto> Timestamp 1 Monday 9]\<rparr>
     [''Chicago'', ''June'', ''Sunday'', ''y'', ''ts'', ''r'', ''n'']
   = Inl (KeyError ''0'') \<and>
   display_station_stats
     \<lparr>columns = [''Start Time'', ''Start Station'', ''End Station'', ''Month'', ''Weekday'',
                 ''Start Hour''],
      rows = []\<rparr>
   = Inl (KeyError ''0'')"
proof -
  let ?w = "\<lparr>read_csv = files [(''chicago.csv'',
        \<lparr>columns = [''Start Time'', ''Start Station'', ''End Station''],
         rows = [[(''Start Time'', StrC ''2017-01-02 09:07:57''),
                  (''Start Station'', StrC ''Clark St''), (''End Station'', StrC ''Lake St'')]]\<rparr>)],
      to_datetime = [StrC ''2017-01-02 09:07:57'' \<mapsto> Timestamp 1 Monday 9]\<rparr>"
  let ?df = "\<lparr>columns = [''Start Time'', ''Start Station'', ''End Station'', ''Month'', ''Weekday'',
                     ''Start Hour''],
          rows = []\<rparr> :: dataframe"
  have e: "rows ?df = []" by simp
  have l: "load_data ?w (Str ''chicago'') (Str ''june'') (Str ''sunday'') = Inr ?df"
    by code_simp
  have g: "get_filters [''Chicago'', ''June'', ''Sunday'', ''y'', ''ts'', ''r'', ''n'']
      = Inr ((Str ''chicago'', Str ''june'', Str ''sunday''), ''ts'' # [''r'', ''n''])"
    by code_simp
  from empty_table_stats_raise[OF e, of "Str ''chicago''" 0 "[''r'', ''n'']"
      "[''Chicago'', ''June'', ''Sunday'', ''y'', ''ts'', ''r'', ''n'']"
      "Str ''chicago''" "Str ''june''" "Str ''sunday''" ?w] g l
  have "main ?w [''Chicago'', ''June'', ''Sunday'', ''y'', ''ts'', ''r'', ''n''] = Inl (KeyError ''0'')"
    and "display_station_stats ?df = Inl (KeyError ''0'')"
    by simp_all
  with l show ?thesis by simp
qed

section \<open>Sources that cannot be loaded\<close>






section \<open>User statistics without a column\<close>

text \<open>
  Claim C7 (a defect of the code).  \<open>display_user_stats\<close> catches the \<open>KeyError\<close> of a
  missing \<open>Gender\<close> column and reports it with \<open>city.title()\<close>.  \<open>main\<close> passes the value
  \<open>get_filters\<close> returned, which is a list when several cities were entered; a list has
  no \<open>title\<close>, so the handler itself raises \<open>AttributeError\<close> and nothing is reported.
\<close>

theorem user_stats_list_city_raises:
  assumes "''UserType'' \<in> set (columns df)" and "''Gender'' \<notin> set (columns df)"
  shows "display_user_stats df (StrList cities) = Inl AttributeError"
  using assms
  by (simp add: display_user_stats_def getitem_def gender_stats_def except_KeyError_def
      unavailable_def city_title_def)

theorem user_stats_list_city_raises_witness:
  "display_user_stats
     \<lparr>columns = [''Start Time'', ''UserType''],
      rows = [[(''Start Time'', StrC ''2017-01-02 09:07:57''), (''UserType'', StrC ''Subscriber'')]]\<rparr>
     (StrList [''washington'', ''washington'']) = Inl AttributeError \<and>
   main
     \<lparr>read_csv = files [(''washington.csv'',
        \<lparr>columns = [''Start Time'', ''UserType''],
         rows = [[(''Start Time'', StrC ''2017-01-02 09:07:57''),
                  (''UserType'', StrC ''Subscriber'')]]\<rparr>)],
      to_datetime = [StrC ''2017-01-02 09:07:57'' \<mapsto> Timestamp 1 Monday 9]\<rparr>
     [''washington,washington'', ''january'', ''monday'', ''y'', ''us'', ''r'', ''n'']
   = Inl AttributeError \<and>
   main
     \<lparr>read_csv = files [(''washington.csv'',
        \<lparr>columns = [''Start Time'', ''UserType''],
         rows = [[(''Start Time'', StrC ''2017-01-02 09:07:57''),
                  (''UserType'', StrC ''Subscriber'')]]\<rparr>)],
      to_datetime = [StrC ''2017-01-02 09:07:57'' \<mapsto> Timestamp 1 Monday 9]\<rparr>
     [''washington'', ''january'', ''monday'', ''y'', ''us'', ''r'', ''n'']
   = Inr ()"
proof -
  have "display_user_stats
     \<lparr>columns = [''Start Time'', ''UserType''],
      rows = [[(''Start Time'', StrC ''2017-01-02 09:07:57''), (''UserType'', StrC ''Subscriber'')]]\<rparr>
     (StrList [''washington'', ''washington'']) = Inl AttributeError"
    by (rule user_stats_list_city_raises) simp_all
  moreover have "main
     \<lparr>read_csv = files [(''washington.csv'',
        \<lparr>columns = [''Start Time'', ''UserType''],
         rows = [[(''Start Time'', StrC ''2017-01-02 09:07:57''),
                  (''UserType'', StrC ''Subscriber'')]]\<rparr>)],
      to_datetime = [StrC ''2017-01-02 09:07:57'' \<mapsto> Timestamp 1 Monday 9]\<rparr>
     [''washington,washington'', ''january'', ''monday'', ''y'', ''us'', ''r'', ''n'']
   = Inl AttributeError"
    by code_simp
  moreover have "main
     \<lparr>read_csv = files [(''washington.csv'',
        \<lparr>columns = [''Start Time'', ''UserType''],
         rows = [[(''Start Time'', StrC ''2017-01-02 09:07:57''),
                  (''UserType'', StrC ''Subscriber'')]]\<rparr>)],
      to_datetime = [StrC ''2017-01-02 09:07:57'' \<mapsto> Timestamp 1 Monday 9]\<rparr>
     [''washington'', ''january'', ''monday'', ''y'', ''us'', ''r'', ''n'']
   = Inr ()"
    by code_simp
  ultimately show ?thesis by simp
qed

text \<open>With one city (a string) the handlers do report: the user types, then one line
  for each missing column, naming the city; nothing is raised.\<close>

lemma user_stats_one_city:
  assumes "''UserType'' \<in> set (columns df)"
    and "''Gender'' \<notin> set (columns df)" and "''Birth Year'' \<notin> set (columns df)"
    and "title city = Some t"
  shows "display_user_stats df (Str city) =
           Inr (df, [Counts (value_counts (map (\<lambda>r. cell_of r ''UserType'') (rows df))),
                     Text (''No gender data available for '' @ t @ ''.''),
                     Text (''No birth year data available for '' @ t @ ''.'')])"
  using assms
  by (simp add: display_user_stats_def getitem_def gender_stats_def birth_year_stats_def
      except_KeyError_def unavailable_def city_title_def printed_def)

section \<open>What the statistics change\<close>

lemma getitem_rows: "getitem df c = Inr col \<Longrightarrow> col = map (\<lambda>r. cell_of r c) (rows df)"
  by (auto simp: getitem_def split: if_splits)

lemma getitem_column: "getitem df c = Inr col \<Longrightarrow> c \<in> set (columns df)"
  by (auto simp: getitem_def split: if_splits)

lemma station_stats_parts:
  assumes "display_station_stats df = Inr (df', shown)"
  obtains combination where
    "''Start Station'' \<in> set (columns df)" "''End Station'' \<in> set (columns df)"
    "sequence (map (\<lambda>r. start_end (cell_of r ''Start Station'') (cell_of r ''End Station'')) (rows df))
       = Inr combination"
    "df' = setitem df ''Start-End Combination'' combination"
proof -
  from assms obtain start_col end_col combination where
    s: "getitem df ''Start Station'' = Inr start_col" and e: "getitem df ''End Station'' = Inr end_col"
    and c: "sequence (map (\<lambda>(s, e). start_end s e) (zip start_col end_col)) = Inr combination"
    and d: "df' = setitem df ''Start-End Combination'' combination"
    by (auto simp: display_station_stats_def Let_def split: sum.splits)
  have "map (\<lambda>(s, e). start_end s e) (zip start_col end_col)
      = map (\<lambda>r. start_end (cell_of r ''Start Station'') (cell_of r ''End Station'')) (rows df)"
    unfolding getitem_rows[OF s] getitem_rows[OF e] by (simp add: zip_map_map zip_same_conv_map)
  with c have "sequence (map (\<lambda>r. start_end (cell_of r ''Start Station'') (cell_of r ''End Station''))
      (rows df)) = Inr combination" by simp
  with getitem_column[OF s] getitem_column[OF e] d that show thesis by blast
qed

lemma cell_of_update_other: "c \<noteq> k \<Longrightarrow> cell_of (AList.update k v r) c = cell_of r c"
  by (simp add: cell_of_update)

lemma getitem_setitem_other:
  assumes "c \<noteq> k" and "length vals = length (rows df)"
  shows "getitem (setitem df k vals) c = getitem df c"
proof -
  have "map (\<lambda>r. cell_of r c) (map (\<lambda>(r, v). AList.update k v r) (zip xs vs))
      = map (\<lambda>r. cell_of r c) xs" if "length xs = length vs" for xs :: "row list" and vs
    using that assms(1) by (induction xs vs rule: list_induct2) (simp_all add: cell_of_update)
  with assms show ?thesis
    by (simp add: getitem_def setitem_def)
qed

lemma setitem_again:
  assumes "length vals = length (rows df)"
  shows "setitem (setitem df k vals) k vals = setitem df k vals"
proof -
  have "map (\<lambda>(r, v). AList.update k v r) (zip (map (\<lambda>(r, v). AList.update k v r) (zip xs vs)) vs)
      = map (\<lambda>(r, v). AList.update k v r) (zip xs vs)"
    if "length xs = length vs" for xs :: "row list" and vs
    using that by (induction xs vs rule: list_induct2) simp_all
  with assms show ?thesis
    by (simp add: setitem_def)
qed

lemma station_stats_again:
  assumes "display_station_stats df = Inr (df', shown)"
  shows "display_station_stats df' = Inr (df', shown)"
proof -
  from assms obtain combination where
    c: "sequence (map (\<lambda>r. start_end (cell_of r ''Start Station'') (cell_of r ''End Station'')) (rows df))
       = Inr combination"
    and d: "df' = setitem df ''Start-End Combination'' combination"
    by (rule station_stats_parts)
  from sequence_length[OF c] have len: "length combination = length (rows df)" by simp
  have g: "getitem df' ''Start Station'' = getitem df ''Start Station''"
    "getitem df' ''End Station'' = getitem df ''End Station''"
    unfolding d using len by (simp_all add: getitem_setitem_other)
  have s: "setitem df' ''Start-End Combination'' combination = df'"
    unfolding d using len by (rule setitem_again)
  from assms obtain start_col end_col where
    sc: "getitem df ''Start Station'' = Inr start_col" and ec: "getitem df ''End Station'' = Inr end_col"
    by (auto simp: display_station_stats_def Let_def split: sum.splits)
  have z: "sequence (map (\<lambda>(s, e). start_end s e) (zip start_col end_col)) = Inr combination"
    using c unfolding getitem_rows[OF sc] getitem_rows[OF ec]
    by (simp add: zip_map_map zip_same_conv_map comp_def)
  from assms show ?thesis
    unfolding display_station_stats_def g sc ec
    by (auto simp: z Let_def s d[symmetric] split: sum.splits)
qed

text \<open>
  Claim C9.  The time, trip-duration and user statistics return the table they were
  given.  The station statistics return it with the column \<open>Start-End Combination\<close> set:
  the column list grows by that label if it was not there, each row is the old row with
  that one cell set, so the number of rows and every other cell are as before; for a
  row with text in both stations the cell is the start station, \<open>' - '\<close>, the end
  station.  Running the station statistics again on the result leaves it as it is.
\<close>

theorem statistics_frame:
  "(display_time_stats df = Inr (df', shown) \<longrightarrow> df' = df) \<and>
   (display_trip_duration_stats df = Inr (df', shown) \<longrightarrow> df' = df) \<and>
   (display_user_stats df city = Inr (df', shown) \<longrightarrow> df' = df) \<and>
   (display_station_stats df = Inr (df', shown) \<longrightarrow>
      columns df' = (if ''Start-End Combination'' \<in> set (columns df) then columns df
                     else columns df @ [''Start-End Combination'']) \<and>
      length (rows df') = length (rows df) \<and>
      (\<forall>i < length (rows df).
         (\<exists>v. start_end (cell_of (rows df ! i) ''Start Station'') (cell_of (rows df ! i) ''End Station'')
                 = Inr v \<and>
              rows df' ! i = AList.update ''Start-End Combination'' v (rows df ! i)) \<and>
         (\<forall>c. c \<noteq> ''Start-End Combination'' \<longrightarrow>
              cell_of (rows df' ! i) c = cell_of (rows df ! i) c) \<and>
         (\<forall>a b. cell_of (rows df ! i) ''Start Station'' = StrC a \<and>
                cell_of (rows df ! i) ''End Station'' = StrC b \<longrightarrow>
              cell_of (rows df' ! i) ''Start-End Combination'' = StrC (a @ '' - '' @ b))) \<and>
      display_station_stats df' = Inr (df', shown))"
proof (intro conjI impI)
  show "df' = df" if "display_time_stats df = Inr (df', shown)"
    using that by (auto simp: display_time_stats_def split: sum.splits)
  show "df' = df" if "display_trip_duration_stats df = Inr (df', shown)"
    using that by (auto simp: display_trip_duration_stats_def split: sum.splits if_splits)
  show "df' = df" if "display_user_stats df city = Inr (df', shown)"
    using that by (auto simp: display_user_stats_def split: sum.splits)
next
  assume a: "display_station_stats df = Inr (df', shown)"
  then obtain combination where
    c: "sequence (map (\<lambda>r. start_end (cell_of r ''Start Station'') (cell_of r ''End Station'')) (rows df))
       = Inr combination"
    and d: "df' = setitem df ''Start-End Combination'' combination"
    by (rule station_stats_parts)
  from sequence_length[OF c] have len: "length combination = length (rows df)" by simp
  from sequence_list_all2[OF c] have nth:
    "start_end (cell_of (rows df ! i) ''Start Station'') (cell_of (rows df ! i) ''End Station'')
       = Inr (combination ! i)" if "i < length (rows df)" for i
    using that by (simp add: list_all2_conv_all_nth)
  have row: "rows df' ! i = AList.update ''Start-End Combination'' (combination ! i) (rows df ! i)"
    if "i < length (rows df)" for i
    unfolding d using that len by (simp add: setitem_def)
  show "columns df' = (if ''Start-End Combination'' \<in> set (columns df) then columns df
                     else columns df @ [''Start-End Combination''])"
    unfolding d by (simp add: setitem_def)
  show "length (rows df') = length (rows df)"
    unfolding d using len by (simp add: setitem_def)
  show "\<forall>i < length (rows df).
         (\<exists>v. start_end (cell_of (rows df ! i) ''Start Station'') (cell_of (rows df ! i) ''End Station'')
                 = Inr v \<and>
              rows df' ! i = AList.update ''Start-End Combination'' v (rows df ! i)) \<and>
         (\<forall>c. c \<noteq> ''Start-End Combination'' \<longrightarrow>
              cell_of (rows df' ! i) c = cell_of (rows df ! i) c) \<and>
         (\<forall>a b. cell_of (rows df ! i) ''Start Station'' = StrC a \<and>
                cell_of (rows df ! i) ''End Station'' = StrC b \<longrightarrow>
              cell_of (rows df' ! i) ''Start-End Combination'' = StrC (a @ '' - '' @ b))"
  proof (intro allI impI conjI)
    fix i assume i: "i < length (rows df)"
    from nth[OF i] row[OF i]
    show "\<exists>v. start_end (cell_of (rows df ! i) ''Start Station'') (cell_of (rows df ! i) ''End Station'')
                 = Inr v \<and>
              rows df' ! i = AList.update ''Start-End Combination'' v (rows df ! i)"
      by blast
    show "cell_of (rows df' ! i) c = cell_of (rows df ! i) c" if "c \<noteq> ''Start-End Combination''" for c
      using that row[OF i] by (simp add: cell_of_update)
    show "cell_of (rows df' ! i) ''Start-End Combination'' = StrC (a @ '' - '' @ b)"
      if "cell_of (rows df ! i) ''Start Station'' = StrC a \<and>
          cell_of (rows df ! i) ''End Station'' = StrC b" for a b
      using that nth[OF i] row[OF i] by (simp add: cell_of_update start_end_def)
  qed
  show "display_station_stats df' = Inr (df', shown)"
    using a by (rule station_stats_again)
qed


theorem statistics_frame_witness:
  "display_station_stats
     \<lparr>columns = [''Start Station'', ''End Station''],
      rows = [[(''Start Station'', StrC ''Clark St''), (''End Station'', StrC ''Lake St'')]]\<rparr>
   = Inr (\<lparr>columns = [''Start Station'', ''End Station'', ''Start-End Combination''],
           rows = [[(''Start Station'', StrC ''Clark St''), (''End Station'', StrC ''Lake St''),
                    (''Start-End Combination'', StrC ''Clark St - Lake St'')]]\<rparr>,
          [Text ''Most common start station: Clark St'',
           Text ''Most common end station: Lake St'',
           Text ''Most common start-end station combination: Clark St - Lake St'']) \<and>
   display_station_stats
     \<lparr>columns = [''Start Station'', ''End Station'', ''Start-End Combination''],
      rows = [[(''Start Station'', StrC ''Clark St''), (''End Station'', StrC ''Lake St''),
               (''Start-End Combination'', StrC ''Clark St - Lake St'')]]\<rparr>
   = Inr (\<lparr>columns = [''Start Station'', ''End Station'', ''Start-End Combination''],
           rows = [[(''Start Station'', StrC ''Clark St''), (''End Station'', StrC ''Lake St''),
                    (''Start-End Combination'', StrC ''Clark St - Lake St'')]]\<rparr>,
          [Text ''Most common start station: Clark St'',
           Text ''Most common end station: Lake St'',
           Text ''Most common start-end station combination: Clark St - Lake St''])"
proof -
  let ?df = "\<lparr>columns = [''Start Station'', ''End Station''],
      rows = [[(''Start Station'', StrC ''Clark St''), (''End Station'', StrC ''Lake St'')]]\<rparr>"
  let ?df' = "\<lparr>columns = [''Start Station'', ''End Station'', ''Start-End Combination''],
           rows = [[(''Start Station'', StrC ''Clark St''), (''End Station'', StrC ''Lake St''),
                    (''Start-End Combination'', StrC ''Clark St - Lake St'')]]\<rparr>"
  let ?shown = "[Text ''Most common start station: Clark St'',
           Text ''Most common end station: Lake St'',
           Text ''Most common start-end station combination: Clark St - Lake St'']"
  have 1: "display_station_stats ?df = Inr (?df', ?shown)"
    by code_simp
  with statistics_frame[of ?df ?df' ?shown]
  have "display_station_stats ?df' = Inr (?df', ?shown)"
    by blast
  with 1 show ?thesis by simp
qed

section \<open>The escape sentinel\<close>

lemma follows_shift: "follows f ext r \<Longrightarrow> follows (\<lambda>ys. f (r @ ys)) ext []"
  by (auto simp: follows_def split: sum.splits if_splits)

lemma follows_bind_general:
  assumes f: "follows f ext1 pre"
    and id: "\<And>res. ext1 res [] = res"
    and k: "\<And>res. f pre = Inr res \<Longrightarrow> follows (\<lambda>ys. k (ext1 res ys)) ext2 []"
  shows "follows (\<lambda>inp. case f inp of Inl e \<Rightarrow> Inl e | Inr res \<Rightarrow> k res) ext2 pre"
proof (cases "f pre")
  case (Inl e)
  with f show ?thesis
    by (auto simp: follows_def split: if_splits)
next
  case (Inr res)
  with f have ext: "f (pre @ xs) = Inr (ext1 res xs)" for xs
    by (simp add: follows_def)
  from k[OF Inr] have "follows (\<lambda>ys. k (ext1 res ys)) ext2 []" .
  then show ?thesis
    using Inr ext by (auto simp: follows_def id split: sum.splits if_splits)
qed

lemma follows_bind:
  assumes "follows f unread pre"
    and "\<And>v r. f pre = Inr (v, r) \<Longrightarrow> follows (g v) ext r"
  shows "follows (\<lambda>inp. case f inp of Inl e \<Rightarrow> Inl e | Inr (v, r) \<Rightarrow> g v r) ext pre"
proof -
  have "follows (\<lambda>inp. case f inp of Inl e \<Rightarrow> Inl e | Inr res \<Rightarrow> (\<lambda>(v, r). g v r) res) ext pre"
  proof (rule follows_bind_general[OF assms(1)])
    show "unread res [] = res" for res :: "'a \<times> string list" by (cases res) simp
    fix res assume r: "f pre = Inr res"
    obtain v r where res: "res = (v, r)" by (cases res)
    from assms(2)[OF r[unfolded res]] have "follows (\<lambda>ys. g v (r @ ys)) ext []"
      by (rule follows_shift)
    then show "follows (\<lambda>ys. (\<lambda>(v, r). g v r) (unread res ys)) ext []"
      by (simp add: res)
  qed
  then show ?thesis by (simp add: case_prod_unfold)
qed

lemma follows_pure:
  assumes "m \<noteq> Inl EOFError"
    and "\<And>v. m = Inr v \<Longrightarrow> follows (g v) ext pre"
  shows "follows (\<lambda>inp. case m of Inl e \<Rightarrow> Inl e | Inr v \<Rightarrow> g v inp) ext pre"
  using assms by (cases m) (auto simp: follows_def)

lemma follows_return:
  assumes "\<And>xs. ext (F pre) xs = F (pre @ xs)"
  shows "follows (\<lambda>inp. Inr (F inp)) ext pre"
  using assms by (simp add: follows_def)

lemma follows_get_user_choice: "follows (get_user_choice valid) unread pre"
proof (induction pre)
  case Nil
  then show ?case by (simp add: follows_def sentinel_def)
next
  case (Cons a pre)
  show ?case
  proof (cases "rejected valid a")
    case True
    then have "get_user_choice valid (a # ys) = get_user_choice valid ys" for ys
      by (rule get_user_choice_rejected)
    with Cons show ?thesis
      by (auto simp: follows_def simp del: get_user_choice.simps split: sum.splits if_splits)
  next
    case False
    then show ?thesis
      by (auto simp: follows_def rejected_def Let_def split: if_splits)
  qed
qed


lemma follows_get_filters: "follows get_filters unread pre"
proof (induction pre rule: get_filters.induct)
  case (1 inp)
  have eq: "get_filters =
    (\<lambda>inp. case get_user_choice (map fst CITY_DATA) inp of Inl e \<Rightarrow> Inl e | Inr (city, inp1) \<Rightarrow>
      (\<lambda>city inp1. case get_user_choice months inp1 of Inl e \<Rightarrow> Inl e | Inr (month, inp2) \<Rightarrow>
        (\<lambda>month inp2. case get_user_choice weekdays inp2 of Inl e \<Rightarrow> Inl e | Inr (day, inp3) \<Rightarrow>
          (\<lambda>day inp3. case get_user_choice [''y'', ''n''] inp3 of Inl e \<Rightarrow> Inl e
             | Inr (confirmation, inp4) \<Rightarrow>
               (\<lambda>confirmation inp4.
                  if confirmation = Str ''y'' then Inr ((city, month, day), inp4)
                  else get_filters inp4) confirmation inp4) day inp3) month inp2) city inp1)"
    by (rule ext) (subst get_filters.simps, simp)
  show ?case
  proof (subst eq, intro follows_bind follows_get_user_choice)
    fix city inp1 month inp2 day inp3 confirmation inp4
    assume g: "get_user_choice (map fst CITY_DATA) inp = Inr (city, inp1)"
      "get_user_choice months inp1 = Inr (month, inp2)"
      "get_user_choice weekdays inp2 = Inr (day, inp3)"
      "get_user_choice [''y'', ''n''] inp3 = Inr (confirmation, inp4)"
    show "follows (\<lambda>inp4. if confirmation = Str ''y'' then Inr ((city, month, day), inp4)
                  else get_filters inp4) unread inp4"
    proof (cases "confirmation = Str ''y''")
      case True
      then show ?thesis by (simp add: follows_def)
    next
      case False
      with "1.IH"[OF g(1) refl g(2) refl g(3) refl g(4) refl False] show ?thesis by simp
    qed
  qed
qed


lemma follows_raw_data_loop: "follows (\<lambda>inp. raw_data_loop df i inp shown) unread3 pre"
proof (induction df i pre shown rule: raw_data_loop.induct)
  case (1 df start_index inp shown)
  let ?shown = "shown @ [Page (take 5 (drop start_index (rows df)))]"
  show ?case
  proof (cases "length (rows df) \<le> start_index + 5")
    case True
    then have "(\<lambda>inp. raw_data_loop df start_index inp shown)
        = (\<lambda>inp. Inr (start_index + 5, inp, ?shown @ [Text ''No more data to display.'']))"
      by (intro ext) (subst raw_data_loop.simps, simp add: Let_def)
    then show ?thesis by (simp add: follows_def)
  next
    case False
    then have eq: "(\<lambda>inp. raw_data_loop df start_index inp shown)
        = (\<lambda>inp. case get_user_choice [''y'', ''n''] inp of Inl e \<Rightarrow> Inl e
             | Inr (answer, inp') \<Rightarrow>
                 (\<lambda>answer inp'. if answer = Str ''n'' then Inr (start_index + 5, inp', ?shown)
                    else raw_data_loop df (start_index + 5) inp' ?shown) answer inp')"
      by (intro ext) (subst raw_data_loop.simps, simp add: Let_def)
    show ?thesis
    proof (subst eq, intro follows_bind follows_get_user_choice)
      fix answer inp'
      assume g: "get_user_choice [''y'', ''n''] inp = Inr (answer, inp')"
      show "follows (\<lambda>inp'. if answer = Str ''n'' then Inr (start_index + 5, inp', ?shown)
                    else raw_data_loop df (start_index + 5) inp' ?shown) unread3 inp'"
      proof (cases "answer = Str ''n''")
        case True
        then show ?thesis by (simp add: follows_def)
      next
        case no: False
        with "1.IH"[OF refl refl False g refl no] show ?thesis by simp
      qed
    qed
  qed
qed

lemma follows_display_raw_data: "follows (display_raw_data df i) unread3 pre"
proof (cases "i > 0")
  case True
  then have eq: "display_raw_data df i
      = (\<lambda>inp. case get_user_choice [''y'', ''n''] inp of Inl e \<Rightarrow> Inl e
           | Inr (continue_last, inp') \<Rightarrow>
               (\<lambda>continue_last inp'.
                  raw_data_loop df (if continue_last = Str ''n'' then 0 else i) inp' [])
                 continue_last inp')"
    by (intro ext) (simp add: display_raw_data_def)
  show ?thesis
    by (subst eq, intro follows_bind follows_get_user_choice) (rule follows_raw_data_loop)
next
  case False
  then have "display_raw_data df i = (\<lambda>inp. raw_data_loop df i inp [])"
    by (intro ext) (simp add: display_raw_data_def)
  then show ?thesis by (simp add: follows_raw_data_loop)
qed

subsection \<open>What cannot raise \<open>EOFError\<close>\<close>

lemma no_eof_bind:
  "no_eof m \<Longrightarrow> (\<And>v. m = Inr v \<Longrightarrow> no_eof (k v))
     \<Longrightarrow> no_eof (case m of Inl e \<Rightarrow> Inl e | Inr v \<Rightarrow> k v)"
  by (cases m) (auto simp: no_eof_def)

lemma no_eof_Inr [simp]: "no_eof (Inr v)"
  by (simp add: no_eof_def)

lemma no_eof_getitem [simp]: "no_eof (getitem df c)"
  by (simp add: no_eof_def getitem_def)

lemma no_eof_mode0 [simp]: "no_eof (mode0 s)"
  by (simp add: no_eof_def mode0_def split: list.splits)

lemma no_eof_as_str [simp]: "no_eof (as_str v)"
  by (simp add: no_eof_def as_str_def split: cell.splits)

lemma no_eof_month_title [simp]: "no_eof (month_title v)"
  by (simp add: no_eof_def month_title_def tuple_get_def split: cell.splits sum.splits)

lemma no_eof_sequence: "(\<And>x. x \<in> set xs \<Longrightarrow> no_eof x) \<Longrightarrow> no_eof (sequence xs)"
  by (induction xs) (auto simp: no_eof_def split: sum.splits)

lemma no_eof_start_end [simp]: "no_eof (start_end s e)"
  by (simp add: no_eof_def start_end_def split: cell.splits)

lemma no_eof_py_int [simp]: "no_eof (py_int v)"
  by (simp add: no_eof_def py_int_def int_of_text_def Let_def split: cell.splits)

lemma no_eof_series_extreme [simp]: "no_eof (series_extreme b s)"
  by (simp add: no_eof_def series_extreme_def Let_def)

lemma no_eof_time_stats: "no_eof (display_time_stats df)"
  unfolding display_time_stats_def
  by (intro no_eof_bind) simp_all

lemma no_eof_station_stats: "no_eof (display_station_stats df)"
  unfolding display_station_stats_def Let_def
  by (intro no_eof_bind no_eof_sequence) auto

lemma no_eof_trip_duration_stats: "no_eof (display_trip_duration_stats df)"
  unfolding display_trip_duration_stats_def
  by (intro no_eof_bind) (auto simp: no_eof_def getitem_def)

lemma no_eof_unavailable [simp]: "no_eof (unavailable what city)"
  by (simp add: no_eof_def unavailable_def city_title_def split: choice.splits)

lemma no_eof_except_KeyError: "no_eof body \<Longrightarrow> no_eof handler \<Longrightarrow> no_eof (except_KeyError body handler)"
  by (auto simp: no_eof_def except_KeyError_def split: sum.splits py_error.splits)

lemma no_eof_gender_stats [simp]: "no_eof (gender_stats df)"
  unfolding gender_stats_def by (intro no_eof_bind) simp_all

lemma no_eof_birth_year_stats [simp]: "no_eof (birth_year_stats df)"
  unfolding birth_year_stats_def by (intro no_eof_bind) simp_all

lemma no_eof_user_stats: "no_eof (display_user_stats df city)"
  unfolding display_user_stats_def
  by (intro no_eof_bind no_eof_except_KeyError) simp_all


lemma read_csv_error_no_eof [simp]: "read_csv_error path failure \<noteq> EOFError"
  by (cases failure) simp_all

lemma no_eof_read_city [simp]: "no_eof (read_city w c)"
  by (simp add: no_eof_def read_city_def split: option.splits sum.splits)

lemma no_eof_pd_concat [simp]: "no_eof (pd_concat b frames)"
  by (simp add: no_eof_def pd_concat_def)

lemma no_eof_index [simp]: "no_eof (index xs x)"
  by (induction xs) (auto simp: no_eof_def split: sum.splits)

lemma no_eof_read_cities [simp]: "no_eof (read_cities w city)"
  unfolding read_cities_def
  by (cases city) (auto intro!: no_eof_bind no_eof_sequence)

lemma no_eof_add_time_columns [simp]: "no_eof (add_time_columns w df)"
  unfolding add_time_columns_def Let_def
  by (intro no_eof_bind no_eof_sequence) (auto simp: no_eof_def getitem_def split: option.splits)

lemma no_eof_select_month [simp]: "no_eof (select_month df m)"
  unfolding select_month_def by (intro no_eof_bind) simp_all

lemma no_eof_select_day [simp]: "no_eof (select_day df d)"
  unfolding select_day_def by (intro no_eof_bind) simp_all

lemma no_eof_filter_month [simp]: "no_eof (filter_month df month)"
  unfolding filter_month_def
  by (cases month) (auto intro!: no_eof_bind no_eof_sequence)

lemma no_eof_filter_day [simp]: "no_eof (filter_day df day)"
  unfolding filter_day_def
  by (cases day) (auto intro!: no_eof_bind no_eof_sequence)

lemma no_eof_load_data: "no_eof (load_data w city month day)"
  unfolding load_data_def filter_step_def
  by (intro no_eof_bind) simp_all

lemma follows_stats:
  assumes "no_eof m" and "\<And>df' shown. m = Inr (df', shown) \<Longrightarrow> follows (g df') ext pre"
  shows "follows (\<lambda>inp. case m of Inl e \<Rightarrow> Inl e | Inr (df', shown) \<Rightarrow> g df' inp) ext pre"
  using assms by (cases m) (auto simp: follows_def no_eof_def split: sum.splits if_splits)

lemma follows_dispatch: "follows (dispatch city df i) (@) pre"
proof (induction city df i pre rule: dispatch.induct)
  case (1 city df start_index inp)
  let ?menu = "[''ts'', ''ss'', ''tds'', ''us'', ''rd'', ''r'']"
  let ?branch = "\<lambda>sel inp'.
          if sel = Str ''ts'' then
            (case display_time_stats df of
               Inl e \<Rightarrow> Inl e
             | Inr (df', shown) \<Rightarrow> dispatch city df' start_index inp')
          else if sel = Str ''ss'' then
            (case display_station_stats df of
               Inl e \<Rightarrow> Inl e
             | Inr (df', shown) \<Rightarrow> dispatch city df' start_index inp')
          else if sel = Str ''tds'' then
            (case display_trip_duration_stats df of
               Inl e \<Rightarrow> Inl e
             | Inr (df', shown) \<Rightarrow> dispatch city df' start_index inp')
          else if sel = Str ''us'' then
            (case display_user_stats df city of
               Inl e \<Rightarrow> Inl e
             | Inr (df', shown) \<Rightarrow> dispatch city df' start_index inp')
          else if sel = Str ''rd'' then
            (case display_raw_data df start_index inp' of
               Inl e \<Rightarrow> Inl e
             | Inr (start_index', inp'', shown) \<Rightarrow> dispatch city df start_index' inp'')
          else if sel = Str ''r'' then Inr inp'
          else dispatch city df start_index inp'"
  have eq: "dispatch city df start_index
      = (\<lambda>inp. case get_user_choice ?menu inp of Inl e \<Rightarrow> Inl e
           | Inr (sel, inp') \<Rightarrow> ?branch sel inp')"
    by (intro ext) (subst dispatch.simps, simp)
  show ?case
  proof (subst eq, intro follows_bind follows_get_user_choice)
    fix sel inp'
    assume g: "get_user_choice ?menu inp = Inr (sel, inp')"
    note IH = "1.IH"[OF g refl]
    consider (ts) "sel = Str ''ts''" | (ss) "sel = Str ''ss''"
      | (tds) "sel = Str ''tds''" | (us) "sel = Str ''us''"
      | (rd) "sel = Str ''rd''" | (r) "sel = Str ''r''"
      | (none) "sel \<noteq> Str ''ts''" "sel \<noteq> Str ''ss''" "sel \<noteq> Str ''tds''"
          "sel \<noteq> Str ''us''" "sel \<noteq> Str ''rd''" "sel \<noteq> Str ''r''"
      by blast
    then show "follows (?branch sel) (@) inp'"
    proof cases
      case ts
      have "follows (\<lambda>inp'. case display_time_stats df of Inl e \<Rightarrow> Inl e
               | Inr (df', shown) \<Rightarrow> dispatch city df' start_index inp') (@) inp'"
        using IH(1)[OF ts] by (intro follows_stats no_eof_time_stats) simp
      with ts show ?thesis by simp
    next
      case ss
      have "follows (\<lambda>inp'. case display_station_stats df of Inl e \<Rightarrow> Inl e
               | Inr (df', shown) \<Rightarrow> dispatch city df' start_index inp') (@) inp'"
        using IH(2)[OF _ ss] ss by (intro follows_stats no_eof_station_stats) simp
      with ss show ?thesis by simp
    next
      case tds
      have "follows (\<lambda>inp'. case display_trip_duration_stats df of Inl e \<Rightarrow> Inl e
               | Inr (df', shown) \<Rightarrow> dispatch city df' start_index inp') (@) inp'"
        using IH(3)[OF _ _ tds] tds by (intro follows_stats no_eof_trip_duration_stats) simp
      with tds show ?thesis by simp
    next
      case us
      have "follows (\<lambda>inp'. case display_user_stats df city of Inl e \<Rightarrow> Inl e
               | Inr (df', shown) \<Rightarrow> dispatch city df' start_index inp') (@) inp'"
        using IH(4)[OF _ _ _ us] us by (intro follows_stats no_eof_user_stats) simp
      with us show ?thesis by simp
    next
      case rd
      have "follows (\<lambda>inp'. case display_raw_data df start_index inp' of Inl e \<Rightarrow> Inl e
               | Inr res \<Rightarrow> (\<lambda>(start_index', inp'', shown). dispatch city df start_index' inp'') res)
             (@) inp'"
      proof (rule follows_bind_general[OF follows_display_raw_data])
        show "unread3 res [] = res" for res by (cases res) auto
        fix res assume d: "display_raw_data df start_index inp' = Inr res"
        obtain j r s where res: "res = (j, r, s)" by (cases res)
        from IH(5)[OF _ _ _ _ rd d[unfolded res] refl refl] rd
        have "follows (dispatch city df j) (@) r" by simp
        then have "follows (\<lambda>ys. dispatch city df j (r @ ys)) (@) []"
          by (rule follows_shift)
        then show "follows (\<lambda>ys. (\<lambda>(start_index', inp'', shown). dispatch city df start_index' inp'')
            (unread3 res ys)) (@) []"
          by (simp add: res)
      qed
      with rd show ?thesis by simp
    next
      case r
      then show ?thesis by (simp add: follows_def)
    next
      case none
      with IH(6) show ?thesis by simp
    qed
  qed
qed


lemma follows_main: "follows (main w) unread_none pre"
proof (induction w pre rule: main.induct)
  case (1 w inp)
  let ?after_dispatch = "\<lambda>inp2. case get_user_choice [''y'', ''n''] inp2 of Inl e \<Rightarrow> Inl e
        | Inr (again, inp3) \<Rightarrow>
            (\<lambda>again inp3. if again \<noteq> Str ''y'' then Inr () else main w inp3) again inp3"
  let ?after_load = "\<lambda>city df inp1. case dispatch city df 0 inp1 of Inl e \<Rightarrow> Inl e
        | Inr inp2 \<Rightarrow> ?after_dispatch inp2"
  let ?after_filters = "\<lambda>f inp1. case load_data w (fst f) (fst (snd f)) (snd (snd f)) of
          Inl e \<Rightarrow> Inl e
        | Inr df \<Rightarrow> ?after_load (fst f) df inp1"
  have eq: "main w = (\<lambda>inp. case get_filters inp of Inl e \<Rightarrow> Inl e
        | Inr (f, inp1) \<Rightarrow> ?after_filters f inp1)"
    by (intro ext) (subst main.simps, auto split: sum.splits)
  show ?case
  proof (subst eq, intro follows_bind follows_get_filters)
    fix f inp1
    assume gf: "get_filters inp = Inr (f, inp1)"
    obtain city month day where f: "f = (city, month, day)" by (cases f)
    show "follows (?after_filters f) unread_none inp1"
    proof (intro follows_pure)
      show "load_data w (fst f) (fst (snd f)) (snd (snd f)) \<noteq> Inl EOFError"
        using no_eof_load_data by (simp add: no_eof_def)
      fix df assume l: "load_data w (fst f) (fst (snd f)) (snd (snd f)) = Inr df"
      show "follows (?after_load (fst f) df) unread_none inp1"
      proof (rule follows_bind_general[OF follows_dispatch])
        show "res @ [] = res" for res by simp
        fix inp2 assume d: "dispatch (fst f) df 0 inp1 = Inr inp2"
        have "follows ?after_dispatch unread_none inp2"
        proof (intro follows_bind follows_get_user_choice)
          fix again inp3
          assume g: "get_user_choice [''y'', ''n''] inp2 = Inr (again, inp3)"
          show "follows (\<lambda>inp3. if again \<noteq> Str ''y'' then Inr () else main w inp3) unread_none inp3"
          proof (cases "again = Str ''y''")
            case True
            from "1.IH"[OF gf[unfolded f] refl refl refl l[unfolded f, simplified] d[unfolded f, simplified] g refl]
              True
            show ?thesis by simp
          next
            case False
            then show ?thesis by (simp add: follows_def)
          qed
        qed
        then show "follows (\<lambda>ys. ?after_dispatch (inp2 @ ys)) unread_none []"
          by (rule follows_shift)
      qed
    qed
  qed
qed


lemma follows_sentinel:
  "follows f ext pre \<Longrightarrow> f pre = Inl EOFError \<Longrightarrow> sentinel l \<Longrightarrow> f (pre @ l # rest) = Inl SystemExit"
  by (simp add: follows_def)

text \<open>
  Claim C4.  Let \<open>l\<close> be a line that lower-cases and trims to \<open>end\<close>.  \<open>get_user_choice\<close>
  raises \<open>SystemExit\<close> on it whatever the valid choices are (the test comes before the
  membership tests) and whatever follows.  No caller catches it: when \<open>get_filters\<close>,
  \<open>display_raw_data\<close>, the dispatch loop or \<open>main\<close> has read the lines \<open>pre\<close> and waits at a
  prompt (with no further line it ends with the \<open>EOFError\<close> of \<open>input()\<close>, which nothing
  else raises), then with \<open>l\<close> as the next line it ends with \<open>SystemExit\<close>, whatever
  \<open>pre\<close> was and whatever comes after \<open>l\<close>.  Trimming is that of \<open>str.strip()\<close>: it
  removes the no-break space U+00A0 as it removes a space.
\<close>

theorem sentinel_exits:
  assumes "strip (lower l) = ''end''"
  shows "get_user_choice valid (l # rest) = Inl SystemExit \<and>
         (get_user_choice valid pre = Inl EOFError \<longrightarrow>
            get_user_choice valid (pre @ l # rest) = Inl SystemExit) \<and>
         (get_filters pre = Inl EOFError \<longrightarrow> get_filters (pre @ l # rest) = Inl SystemExit) \<and>
         (display_raw_data df i pre = Inl EOFError \<longrightarrow>
            display_raw_data df i (pre @ l # rest) = Inl SystemExit) \<and>
         (dispatch city df i pre = Inl EOFError \<longrightarrow>
            dispatch city df i (pre @ l # rest) = Inl SystemExit) \<and>
         (main w pre = Inl EOFError \<longrightarrow> main w (pre @ l # rest) = Inl SystemExit)"
proof -
  from assms have s: "sentinel l" by (simp add: sentinel_def)
  from assms have "get_user_choice valid (l # rest) = Inl SystemExit"
    by (rule get_user_choice_sentinel)
  moreover note follows_sentinel[OF follows_get_user_choice _ s, of valid pre rest]
    follows_sentinel[OF follows_get_filters _ s, of pre rest]
    follows_sentinel[OF follows_display_raw_data _ s, of df i pre rest]
    follows_sentinel[OF follows_dispatch _ s, of city df i pre rest]
    follows_sentinel[OF follows_main _ s, of w pre rest]
  ultimately show ?thesis by blast
qed

theorem sentinel_exits_witness:
  "strip (lower (CHR 0xA0 # ''End '')) = ''end'' \<and>
   get_user_choice [''end''] [(CHR 0xA0 # ''End ''), ''y''] = Inl SystemExit \<and>
   main
     \<lparr>read_csv = files [(''chicago.csv'',
        \<lparr>columns = [''Start Time'', ''Trip Duration''],
         rows = [[(''Start Time'', StrC ''2017-01-02 09:07:57''), (''Trip Duration'', IntC 300)]]\<rparr>)],
      to_datetime = [StrC ''2017-01-02 09:07:57'' \<mapsto> Timestamp 1 Monday 9]\<rparr>
     [''chicago'', ''january'', ''monday'', ''y'', ''tds'', ''rd''] = Inl EOFError \<and>
   main
     \<lparr>read_csv = files [(''chicago.csv'',
        \<lparr>columns = [''Start Time'', ''Trip Duration''],
         rows = [[(''Start Time'', StrC ''2017-01-02 09:07:57''), (''Trip Duration'', IntC 300)]]\<rparr>)],
      to_datetime = [StrC ''2017-01-02 09:07:57'' \<mapsto> Timestamp 1 Monday 9]\<rparr>
     [''chicago'', ''january'', ''monday'', ''y'', ''tds'', ''rd'', (CHR 0xA0 # ''End ''), ''r'', ''n'']
     = Inl SystemExit"
proof -
  let ?w = "\<lparr>read_csv = files [(''chicago.csv'',
        \<lparr>columns = [''Start Time'', ''Trip Duration''],
         rows = [[(''Start Time'', StrC ''2017-01-02 09:07:57''), (''Trip Duration'', IntC 300)]]\<rparr>)],
      to_datetime = [StrC ''2017-01-02 09:07:57'' \<mapsto> Timestamp 1 Monday 9]\<rparr>"
  have e: "strip (lower (CHR 0xA0 # ''End '')) = ''end''"
    by (simp add: string_evals)
  have p: "main ?w [''chicago'', ''january'', ''monday'', ''y'', ''tds'', ''rd''] = Inl EOFError"
    by code_simp
  from sentinel_exits[OF e, where valid = "[''end'']" and rest = "[''y'']"]
  have 1: "get_user_choice [''end''] [(CHR 0xA0 # ''End ''), ''y''] = Inl SystemExit"
    by blast
  from sentinel_exits[OF e, where rest = "[''r'', ''n'']" and w = ?w
      and pre = "[''chicago'', ''january'', ''monday'', ''y'', ''tds'', ''rd'']"] p
  have 2: "main ?w ([''chicago'', ''january'', ''monday'', ''y'', ''tds'', ''rd''] @ (CHR 0xA0 # ''End '') # [''r'', ''n''])
      = Inl SystemExit"
    by blast
  from e 1 p 2 show ?thesis by simp
qed

end
